theory Spec2Isabelle
  imports Main "HOL-Library.Word"
begin

unbundle bit_operations_syntax

section \<open>The bootloader core of canboot\_main.c\<close>

text \<open>
  A shallow embedding of \<^verbatim>\<open>src/canboot_main.c\<close>: the static variables of the file and
  the collaborators they drive (flash, command responses, the persisted bootup code) form one
  state record, every handler is a function on that state, and the places where the C code
  would leave defined behaviour (a \<^verbatim>\<open>memcpy\<close> past the end of \<^verbatim>\<open>page_buffer\<close>, a
  division by a zero page size, a read of \<^verbatim>\<open>data[1]\<close> where the frame has no word) are
  explicit faults.
\<close>

subsection \<open>Machine types and configuration\<close>

type_synonym u8 = "8 word"
type_synonym u32 = "32 word"
type_synonym u64 = "64 word"

text \<open>
  The build configuration. \<^verbatim>\<open>autoconf.h\<close>, \<^verbatim>\<open>command.h\<close> and the board's flash driver are
  not part of the source file, so the constants they define are parameters:
  \<^verbatim>\<open>CONFIG_APPLICATION_START\<close>, \<^verbatim>\<open>CONFIG_BLOCK_SIZE\<close>, \<^verbatim>\<open>CONFIG_MAX_FLASH_PAGE_SIZE\<close>,
  the value returned by \<^verbatim>\<open>flash_get_page_size()\<close>, \<^verbatim>\<open>CONFIG_ENABLE_BUTTON\<close>,
  \<^verbatim>\<open>CONFIG_ENABLE_DOUBLE_RESET\<close>, \<^verbatim>\<open>CONFIG_MCU\<close> and \<^verbatim>\<open>PROTO_VERSION\<close>.
\<close>

record config =
  APPLICATION_START :: u32
  BLOCK_SIZE :: nat
  MAX_FLASH_PAGE_SIZE :: nat
  flash_page_size :: u32
  ENABLE_BUTTON :: bool
  ENABLE_DOUBLE_RESET :: bool
  MCU :: string
  PROTO_VERSION :: u32

definition REQUEST_SIG :: u64 where
  "REQUEST_SIG = 0x5984E3FA6CA1589B"

subsection \<open>Responses and faults\<close>

datatype command = CMD_CONNECT | CMD_RX_BLOCK | CMD_RX_EOF | CMD_REQ_BLOCK | CMD_COMPLETE

text \<open>
  A response as the handler hands it to the command framework:
  \<open>Ack cmd ws bs\<close> stands for \<^verbatim>\<open>command_respond_ack(cmd, out, n)\<close>, where \<open>ws\<close> are the
  words the handler stored through \<^verbatim>\<open>cpu_to_le32\<close> from \<^verbatim>\<open>out[2]\<close> on and \<open>bs\<close> the
  raw bytes it placed after them (\<^verbatim>\<open>out[0]\<close>, \<^verbatim>\<open>out[1]\<close> and the trailer word belong to
  the framework); \<open>CommandError\<close> stands for \<^verbatim>\<open>command_respond_command_error()\<close>.
\<close>

datatype response = Ack command "u32 list" "u8 list" | CommandError

datatype fault = BufferOverrun | DivideByZero | ReadPastFrame

subsection \<open>State\<close>

text \<open>
  The first five fields are the static variables of the file. The others are the
  collaborators' state: the flash memory with the trace of \<^verbatim>\<open>flash_write_page\<close> calls
  (address and page contents, oldest first) and the number of \<^verbatim>\<open>flash_complete\<close> calls,
  the persisted bootup code, and the responses sent so far (oldest first).
\<close>

record state =
  page_buffer :: "u8 list"
  last_page_address :: u32
  page_pending :: u8
  is_in_transfer :: u8
  complete :: u8
  flash_mem :: "u32 \<Rightarrow> u8"
  flash_writes :: "(u32 \<times> u8 list) list"
  flash_completes :: nat
  bootup_code :: u64
  acks :: "response list"

text \<open>
  The state after C start-up initialisation: static storage is zero-initialised, the
  persisted register and the flash memory are what the previous run left.
\<close>

definition init_state :: "config \<Rightarrow> (u32 \<Rightarrow> u8) \<Rightarrow> u64 \<Rightarrow> state" where
  "init_state cfg mem code =
     \<lparr> page_buffer = replicate (MAX_FLASH_PAGE_SIZE cfg) 0,
       last_page_address = 0,
       page_pending = 0,
       is_in_transfer = 0,
       complete = 0,
       flash_mem = mem,
       flash_writes = [],
       flash_completes = 0,
       bootup_code = code,
       acks = [] \<rparr>"

definition flashcmd_is_in_transfer :: "state \<Rightarrow> u8" where
  "flashcmd_is_in_transfer s = is_in_transfer s"

subsection \<open>Collaborators\<close>

text \<open>
  Modelled from the spec: the flash driver (\<^verbatim>\<open>board/flash.h\<close>) is not part of the source.
  Flash is a byte-addressable memory; \<^verbatim>\<open>flash_write_page(address, bytes)\<close> programs one page,
  that is the first \<^verbatim>\<open>flash_get_page_size()\<close> bytes it is handed, at \<open>address\<close>;
  \<^verbatim>\<open>flash_read_block(address)\<close> returns the \<^verbatim>\<open>CONFIG_BLOCK_SIZE\<close> bytes at \<open>address\<close>;
  \<^verbatim>\<open>flash_complete()\<close> finalises the image. Addresses are 32-bit and wrap.
\<close>

definition flash_write_page :: "config \<Rightarrow> u32 \<Rightarrow> u8 list \<Rightarrow> state \<Rightarrow> state" where
  "flash_write_page cfg page_address buf s =
     (let pg = take (unat (flash_page_size cfg)) buf in
      s\<lparr> flash_mem := (\<lambda>a. if unat (a - page_address) < length pg
                              then pg ! unat (a - page_address) else flash_mem s a),
         flash_writes := flash_writes s @ [(page_address, pg)] \<rparr>)"

definition flash_read_block :: "config \<Rightarrow> u32 \<Rightarrow> state \<Rightarrow> u8 list" where
  "flash_read_block cfg block_address s =
     map (\<lambda>i. flash_mem s (block_address + of_nat i)) [0..<BLOCK_SIZE cfg]"

definition flash_complete :: "state \<Rightarrow> state" where
  "flash_complete s = s\<lparr> flash_completes := Suc (flash_completes s) \<rparr>"

text \<open>
  Modelled from the spec: \<^verbatim>\<open>get_bootup_code\<close> and \<^verbatim>\<open>set_bootup_code\<close> (\<^verbatim>\<open>board/misc.h\<close>)
  are not part of the source. They read and write the one persistent register, whose value
  survives a reset.
\<close>

definition get_bootup_code :: "state \<Rightarrow> u64" where
  "get_bootup_code s = bootup_code s"

definition set_bootup_code :: "u64 \<Rightarrow> state \<Rightarrow> state" where
  "set_bootup_code v s = s\<lparr> bootup_code := v \<rparr>"

text \<open>
  Modelled from the spec: \<^verbatim>\<open>command_respond_ack\<close> and
  \<^verbatim>\<open>command_respond_command_error\<close> (\<^verbatim>\<open>command.h\<close>) are not part of the source. Each
  call hands one response to the transport; the model appends it to the responses sent.
\<close>

definition command_respond_ack :: "command \<Rightarrow> u32 list \<Rightarrow> u8 list \<Rightarrow> state \<Rightarrow> state" where
  "command_respond_ack cmd ws bs s = s\<lparr> acks := acks s @ [Ack cmd ws bs] \<rparr>"

definition command_respond_command_error :: "state \<Rightarrow> state" where
  "command_respond_command_error s = s\<lparr> acks := acks s @ [CommandError] \<rparr>"

text \<open>
  A request frame as the handler finds it in the receive buffer behind the header word
  \<^verbatim>\<open>data[0]\<close>: the argument words \<^verbatim>\<open>data[1]\<close>, \<^verbatim>\<open>data[2]\<close>, ..., each read little-endian
  as \<^verbatim>\<open>le32_to_cpu\<close> does, followed by the one word that the transport stores behind the
  arguments (the frame's checksum and end marker). The handlers never look at that last word
  on purpose, but the memory is there: \<^verbatim>\<open>data[1]\<close> of a frame without arguments is that
  word, and a copy of \<^verbatim>\<open>CONFIG_BLOCK_SIZE\<close> bytes from \<^verbatim>\<open>&data[2]\<close> runs into it when the
  block size is not a multiple of four (by at most three bytes, in a frame that passed the
  argument count check). The empty list carries no word at all and is only ever handed to
  handlers that do not read the frame.
\<close>

type_synonym frame = "u32 list"

text \<open>
  Modelled from the spec: \<^verbatim>\<open>command_get_arg_count\<close> (\<^verbatim>\<open>command.h\<close>) is not part of the
  source. It is the number of argument words of the frame, the word behind them not counted.
\<close>

definition command_get_arg_count :: "frame \<Rightarrow> nat" where
  "command_get_arg_count data = length data - 1"

text \<open>The four bytes of a word in memory order (little-endian wire order).\<close>

definition le_bytes :: "u32 \<Rightarrow> u8 list" where
  "le_bytes w = [ucast w, ucast (drop_bit 8 w), ucast (drop_bit 16 w), ucast (drop_bit 24 w)]"

text \<open>
  The \<^verbatim>\<open>CONFIG_BLOCK_SIZE\<close> bytes at \<^verbatim>\<open>(uint8_t *)&data[2]\<close>: the first that many bytes of
  the words behind the address. In a frame that passed the argument count check these are
  \<^verbatim>\<open>CONFIG_BLOCK_SIZE / 4\<close> payload words and the word behind the arguments, so there are
  always enough of them; when the block size is a multiple of four they are exactly the
  bytes of the payload words.
\<close>

definition block_bytes :: "config \<Rightarrow> frame \<Rightarrow> u8 list" where
  "block_bytes cfg data = take (BLOCK_SIZE cfg) (concat (map le_bytes (tl data)))"

text \<open>\<^verbatim>\<open>memcpy(&buf[pos], src, length src)\<close> on a buffer that holds the range.\<close>

definition memcpy_at :: "u8 list \<Rightarrow> nat \<Rightarrow> u8 list \<Rightarrow> u8 list" where
  "memcpy_at buf pos src = take pos buf @ src @ drop (pos + length src) buf"

subsection \<open>Page tracking and command handlers\<close>

definition write_page :: "config \<Rightarrow> u32 \<Rightarrow> state \<Rightarrow> state" where
  "write_page cfg page_address s =
     (let s1 = flash_write_page cfg page_address (page_buffer s) s;
          s2 = s1\<lparr> page_buffer := replicate (MAX_FLASH_PAGE_SIZE cfg) 0xFF \<rparr>;
          s3 = s2\<lparr> last_page_address := page_address \<rparr>
      in s3\<lparr> page_pending := 0 \<rparr>)"

text \<open>
  The read handler takes \<^verbatim>\<open>data[1]\<close> without looking at the argument count; in a frame
  without arguments that is the word behind the header.
\<close>

definition command_read_block :: "config \<Rightarrow> frame \<Rightarrow> state \<Rightarrow> fault + state" where
  "command_read_block cfg data s =
     (let s1 = s\<lparr> is_in_transfer := 1 \<rparr> in
      case data of
        [] \<Rightarrow> Inl ReadPastFrame
      | block_address # _ \<Rightarrow>
          Inr (command_respond_ack CMD_REQ_BLOCK [block_address]
                 (flash_read_block cfg block_address s1) s1))"

text \<open>
  The write handler. After the argument count check the frame is not empty, so
  \<open>hd data\<close> is \<^verbatim>\<open>data[1]\<close>. The remainder by a page size of zero and a copy that would end
  behind \<^verbatim>\<open>page_buffer[CONFIG_MAX_FLASH_PAGE_SIZE - 1]\<close> are the two places where the C
  code has no defined behaviour.
\<close>

definition command_write_block :: "config \<Rightarrow> frame \<Rightarrow> state \<Rightarrow> fault + state" where
  "command_write_block cfg data s =
     (let s1 = s\<lparr> is_in_transfer := 1 \<rparr> in
      if command_get_arg_count data \<noteq> BLOCK_SIZE cfg div 4 + 1
      then Inr (command_respond_command_error s1)
      else
        let block_address = hd data in
        if block_address < APPLICATION_START cfg
        then Inr (command_respond_command_error s1)
        else
          let flash_page_size = flash_page_size cfg in
          if flash_page_size = 0 then Inl DivideByZero
          else
            let page_pos = block_address mod flash_page_size in
            if unat page_pos + BLOCK_SIZE cfg > MAX_FLASH_PAGE_SIZE cfg then Inl BufferOverrun
            else
              let s2 = s1\<lparr> page_buffer :=
                            memcpy_at (page_buffer s1) (unat page_pos) (block_bytes cfg data) \<rparr>;
                  s3 = s2\<lparr> page_pending := 1 \<rparr>;
                  s4 = (if page_pos + of_nat (BLOCK_SIZE cfg) = flash_page_size
                        then write_page cfg (block_address - page_pos) s3 else s3)
              in Inr (command_respond_ack CMD_RX_BLOCK [block_address] [] s4))"

text \<open>
  The end-of-file handler; the page count is computed from \<open>last_page_address\<close> as it is
  after the flush.
\<close>

definition command_eof :: "config \<Rightarrow> frame \<Rightarrow> state \<Rightarrow> fault + state" where
  "command_eof cfg data s =
     (let s1 = s\<lparr> is_in_transfer := 0 \<rparr>;
          flash_page_size = flash_page_size cfg;
          s2 = (if page_pending s1 \<noteq> 0
                then write_page cfg (last_page_address s1 + flash_page_size) s1 else s1);
          s3 = flash_complete s2
      in if flash_page_size = 0 then Inl DivideByZero
         else Inr (command_respond_ack CMD_RX_EOF
                     [(last_page_address s3 - APPLICATION_START cfg) div flash_page_size + 1]
                     [] s3))"

definition command_complete :: "config \<Rightarrow> frame \<Rightarrow> state \<Rightarrow> state" where
  "command_complete cfg data s =
     (let s1 = command_respond_ack CMD_COMPLETE [] [] s in s1\<lparr> complete := 1 \<rparr>)"

text \<open>
  \<^verbatim>\<open>DIV_ROUND_UP(strlen(CONFIG_MCU), 4)\<close> words hold the identifier, zero padded by the
  \<^verbatim>\<open>memset\<close>.
\<close>

definition command_connect :: "config \<Rightarrow> frame \<Rightarrow> state \<Rightarrow> state" where
  "command_connect cfg data s =
     (let mcuwords = (length (MCU cfg) + 3) div 4 in
      command_respond_ack CMD_CONNECT
        [PROTO_VERSION cfg, APPLICATION_START cfg, of_nat (BLOCK_SIZE cfg)]
        (map (\<lambda>c. of_nat (of_char c)) (MCU cfg)
           @ replicate (4 * mcuwords - length (MCU cfg)) 0) s)"

subsection \<open>Sessions\<close>

text \<open>
  The command framework calls one handler per decoded frame; a session is the list of
  frames it delivers, and a fault ends it.
\<close>

datatype request =
    Connect frame | ReqBlock frame | RxBlock frame | RxEof frame | Complete frame

fun dispatch :: "config \<Rightarrow> request \<Rightarrow> state \<Rightarrow> fault + state" where
  "dispatch cfg (Connect d) s = Inr (command_connect cfg d s)"
| "dispatch cfg (ReqBlock d) s = command_read_block cfg d s"
| "dispatch cfg (RxBlock d) s = command_write_block cfg d s"
| "dispatch cfg (RxEof d) s = command_eof cfg d s"
| "dispatch cfg (Complete d) s = Inr (command_complete cfg d s)"

fun run_session :: "config \<Rightarrow> request list \<Rightarrow> state \<Rightarrow> fault + state" where
  "run_session cfg [] s = Inr s"
| "run_session cfg (r # rs) s =
     (case dispatch cfg r s of Inl f \<Rightarrow> Inl f | Inr s' \<Rightarrow> run_session cfg rs s')"

subsection \<open>Boot decision\<close>

text \<open>
  The scan loop of \<^verbatim>\<open>check_application_code\<close>. Its index is a \<^verbatim>\<open>uint8_t\<close> compared with
  the integer constant \<^verbatim>\<open>CONFIG_BLOCK_SIZE\<close>, so it wraps at 256 and the loop need not end:
  the function is partial, \<open>None\<close> meaning that it never returns.
\<close>

partial_function (option) check_loop :: "nat \<Rightarrow> u8 list \<Rightarrow> u8 \<Rightarrow> u8 option" where
  "check_loop block_size buf i =
     (if unat i < block_size
      then (if buf ! unat i \<noteq> 0xFF then Some 1 else check_loop block_size buf (i + 1))
      else Some 0)"

declare check_loop.simps [code]

text \<open>
  \<^verbatim>\<open>flash_read_block\<close> stores the first block of the application at the start of
  \<^verbatim>\<open>page_buffer\<close>, which must be able to hold it; the scan then only reads what was stored.
\<close>

definition check_application_code :: "config \<Rightarrow> state \<Rightarrow> (fault + u8 \<times> state) option" where
  "check_application_code cfg s =
     (if BLOCK_SIZE cfg > MAX_FLASH_PAGE_SIZE cfg then Some (Inl BufferOverrun)
      else
        let s1 = s\<lparr> page_buffer :=
                      memcpy_at (page_buffer s) 0 (flash_read_block cfg (APPLICATION_START cfg) s) \<rparr>
        in case check_loop (BLOCK_SIZE cfg) (page_buffer s1) 0 of
             None \<Rightarrow> None
           | Some r \<Rightarrow> Some (Inr (r, s1)))"

text \<open>
  \<open>button\<close> is what sampling the pin gives: \<^verbatim>\<open>gpio_in_read(button) == button_high\<close>.
\<close>

definition check_button_pressed :: "config \<Rightarrow> bool \<Rightarrow> bool" where
  "check_button_pressed cfg button = (if \<not> ENABLE_BUTTON cfg then False else button)"

text \<open>Without a reset during the delay, the two writes follow each other.\<close>

definition check_double_reset :: "config \<Rightarrow> state \<Rightarrow> state" where
  "check_double_reset cfg s =
     (if \<not> ENABLE_DOUBLE_RESET cfg then s
      else set_bootup_code 0 (set_bootup_code REQUEST_SIG s))"

datatype boot_mode = EnterBootloader | JumpToApplication

text \<open>
  \<^verbatim>\<open>canboot_main\<close> up to the point where it hands over: to \<^verbatim>\<open>enter_bootloader\<close>, which
  serves requests until the device reboots, or to the application. The operands of
  \<^verbatim>\<open>||\<close> are evaluated left to right and only as far as needed.
\<close>

definition canboot_main :: "config \<Rightarrow> bool \<Rightarrow> state \<Rightarrow> (fault + boot_mode \<times> state) option" where
  "canboot_main cfg button s =
     (let bootup_code = get_bootup_code s in
      if bootup_code = REQUEST_SIG
      then Some (Inr (EnterBootloader, set_bootup_code 0 s))
      else
        case check_application_code cfg s of
          None \<Rightarrow> None
        | Some (Inl f) \<Rightarrow> Some (Inl f)
        | Some (Inr (r, s1)) \<Rightarrow>
            if r = 0 \<or> check_button_pressed cfg button
            then Some (Inr (EnterBootloader, set_bootup_code 0 s1))
            else Some (Inr (JumpToApplication, check_double_reset cfg s1)))"

subsection \<open>Derived notions used in the statements\<close>

text \<open>
  The two checks of \<^verbatim>\<open>command_write_block\<close> that a frame has to pass, the offset the
  handler computes for it, and the state right after the \<^verbatim>\<open>memcpy\<close> and
  \<^verbatim>\<open>page_pending = 1\<close>.
\<close>

definition write_block_accepts :: "config \<Rightarrow> frame \<Rightarrow> bool" where
  "write_block_accepts cfg data \<longleftrightarrow>
     command_get_arg_count data = BLOCK_SIZE cfg div 4 + 1 \<and> \<not> hd data < APPLICATION_START cfg"

definition page_pos :: "config \<Rightarrow> u32 \<Rightarrow> u32" where
  "page_pos cfg block_address = block_address mod flash_page_size cfg"

definition stage_block :: "config \<Rightarrow> frame \<Rightarrow> state \<Rightarrow> state" where
  "stage_block cfg data s =
     s\<lparr> is_in_transfer := 1,
        page_buffer :=
          memcpy_at (page_buffer s) (unat (page_pos cfg (hd data))) (block_bytes cfg data),
        page_pending := 1 \<rparr>"

text \<open>
  The configuration of the specification's scenarios (application start \<open>0x8000\<close>, blocks of
  64 bytes, pages of 256 bytes, a page buffer of one page), and an erased flash.
\<close>

definition scenario_config :: config where
  "scenario_config =
     \<lparr> APPLICATION_START = 0x8000, BLOCK_SIZE = 64, MAX_FLASH_PAGE_SIZE = 256,
       flash_page_size = 256, ENABLE_BUTTON = False, ENABLE_DOUBLE_RESET = False,
       MCU = ''stm32f103xe'', PROTO_VERSION = 1 \<rparr>"

definition erased_flash :: "u32 \<Rightarrow> u8" where
  "erased_flash a = 0xFF"

text \<open>
  A write-block frame for the scenarios: the address, sixteen equal payload words, and
  \<open>0x0399C0DE\<close> as the word behind the arguments.
\<close>

definition scenario_frame :: "u32 \<Rightarrow> u32 \<Rightarrow> frame" where
  "scenario_frame a w = a # replicate 16 w @ [0x0399C0DE]"

text \<open>Whether a response is a positive acknowledgement, and whether a request is a write.\<close>

fun is_ack :: "response \<Rightarrow> bool" where
  "is_ack (Ack cmd ws bs) = True"
| "is_ack CommandError = False"

fun is_write_block :: "request \<Rightarrow> bool" where
  "is_write_block (RxBlock d) = True"
| "is_write_block r = False"

text \<open>
  The state in which \<^verbatim>\<open>enter_bootloader\<close> starts serving requests when the application
  asked for the bootloader in the scenario configuration, on an erased flash.
\<close>

definition requested_entry :: state where
  "requested_entry = set_bootup_code 0 (init_state scenario_config erased_flash REQUEST_SIG)"

text \<open>
  The same when no request was made and the bootloader is entered because the flash is
  erased: the scan has left the first block of the application in the page buffer.
\<close>

definition scanned_entry :: state where
  "scanned_entry =
     set_bootup_code 0
       ((init_state scenario_config erased_flash 0)
          \<lparr> page_buffer := replicate 64 0xFF @ replicate 192 0 \<rparr>)"

text \<open>
  A contiguous image: \<open>contiguous cfg k ds\<close> says that \<open>ds\<close> are the write-block frames of
  the blocks number \<open>k\<close>, \<open>k + 1\<close>, ... counted from the application start
  (\<open>block_address\<close> and \<open>page_address\<close> are the addresses of the numbered blocks and
  pages of the application region).
  \<open>geometry_ok\<close> collects what a build provides: whole blocks of a multiple of four bytes,
  whole blocks per page, a page buffer of at least one page, a page-aligned application
  start. \<open>tracked cfg k s\<close> is the state of the page tracking after the first \<open>k\<close> blocks
  of a contiguous image.
\<close>

definition block_address :: "config \<Rightarrow> nat \<Rightarrow> u32" where
  "block_address cfg k = APPLICATION_START cfg + of_nat (k * BLOCK_SIZE cfg)"

definition page_address :: "config \<Rightarrow> nat \<Rightarrow> u32" where
  "page_address cfg j = APPLICATION_START cfg + of_nat (j * unat (flash_page_size cfg))"

fun contiguous :: "config \<Rightarrow> nat \<Rightarrow> frame list \<Rightarrow> bool" where
  "contiguous cfg k [] = True"
| "contiguous cfg k (d # ds) =
     (command_get_arg_count d = BLOCK_SIZE cfg div 4 + 1
      \<and> hd d = block_address cfg k
      \<and> contiguous cfg (Suc k) ds)"

definition blocks_per_page :: "config \<Rightarrow> nat" where
  "blocks_per_page cfg = unat (flash_page_size cfg) div BLOCK_SIZE cfg"

definition geometry_ok :: "config \<Rightarrow> bool" where
  "geometry_ok cfg \<longleftrightarrow>
     0 < BLOCK_SIZE cfg \<and> 4 dvd BLOCK_SIZE cfg
     \<and> flash_page_size cfg \<noteq> 0
     \<and> BLOCK_SIZE cfg dvd unat (flash_page_size cfg)
     \<and> unat (flash_page_size cfg) \<le> MAX_FLASH_PAGE_SIZE cfg
     \<and> unat (flash_page_size cfg) dvd unat (APPLICATION_START cfg)"

definition tracked :: "config \<Rightarrow> nat \<Rightarrow> state \<Rightarrow> bool" where
  "tracked cfg k s \<longleftrightarrow>
     length (page_buffer s) = MAX_FLASH_PAGE_SIZE cfg
     \<and> page_pending s = (if k mod blocks_per_page cfg = 0 then 0 else 1)
     \<and> length (flash_writes s) = k div blocks_per_page cfg
     \<and> (if blocks_per_page cfg \<le> k
         then last_page_address s = page_address cfg (k div blocks_per_page cfg - 1)
         else True)"

text \<open>
  For the read-back property: \<open>holds_block cfg a bs s\<close> says that the page buffer has its
  declared size and holds the bytes \<open>bs\<close> at the page offset of address \<open>a\<close>;
  \<open>beside cfg a d\<close> says that \<open>d\<close> is an accepted write-block frame whose block does not
  complete its page and does not overlap, in the page buffer, the block at address \<open>a\<close>.
\<close>

definition holds_block :: "config \<Rightarrow> u32 \<Rightarrow> u8 list \<Rightarrow> state \<Rightarrow> bool" where
  "holds_block cfg a bs s \<longleftrightarrow>
     length (page_buffer s) = MAX_FLASH_PAGE_SIZE cfg
     \<and> take (BLOCK_SIZE cfg) (drop (unat (page_pos cfg a)) (page_buffer s)) = bs"

definition beside :: "config \<Rightarrow> u32 \<Rightarrow> frame \<Rightarrow> bool" where
  "beside cfg a d \<longleftrightarrow>
     write_block_accepts cfg d
     \<and> unat (page_pos cfg (hd d)) + BLOCK_SIZE cfg < unat (flash_page_size cfg)
     \<and> (unat (page_pos cfg (hd d)) + BLOCK_SIZE cfg \<le> unat (page_pos cfg a)
        \<or> unat (page_pos cfg a) + BLOCK_SIZE cfg \<le> unat (page_pos cfg (hd d)))"

section \<open>Properties\<close>

subsection \<open>Basic facts about the handlers\<close>

lemma write_block_rejects:
  "\<not> write_block_accepts cfg data \<Longrightarrow>
   command_write_block cfg data s =
     Inr (s\<lparr> is_in_transfer := 1, acks := acks s @ [CommandError] \<rparr>)"
  by (auto simp: write_block_accepts_def command_write_block_def Let_def
        command_respond_command_error_def)

lemma write_block_accepted:
  assumes "write_block_accepts cfg data" and "flash_page_size cfg \<noteq> 0"
    and "unat (page_pos cfg (hd data)) + BLOCK_SIZE cfg \<le> MAX_FLASH_PAGE_SIZE cfg"
  shows "command_write_block cfg data s =
     Inr (command_respond_ack CMD_RX_BLOCK [hd data] []
       (if page_pos cfg (hd data) + of_nat (BLOCK_SIZE cfg) = flash_page_size cfg
        then write_page cfg (hd data - page_pos cfg (hd data)) (stage_block cfg data s)
        else stage_block cfg data s))"
  using assms
  by (simp add: write_block_accepts_def command_write_block_def Let_def page_pos_def
        stage_block_def)

lemma aligned_block_fits:
  fixes a p :: u32
  assumes "p \<noteq> 0" and "b dvd unat p" and "b dvd unat a"
  shows "unat (a mod p) + b \<le> unat p"
proof -
  have p0: "0 < unat p" using assms(1) by (simp add: unat_gt_0)
  have m: "unat (a mod p) = unat a mod unat p" by (simp add: unat_mod)
  have lt: "unat a mod unat p < unat p" using p0 by simp
  have d: "b dvd unat a mod unat p" using assms(2,3) by (simp add: dvd_mod)
  obtain k where k: "unat p = b * k" using assms(2) by (auto elim: dvdE)
  obtain j where j: "unat a mod unat p = b * j" using d by (auto elim: dvdE)
  from lt k j have "b * j < b * k" by simp
  then have "j < k" by simp
  then have "Suc j \<le> k" by simp
  then have "b * Suc j \<le> b * k" by (rule mult_le_mono2)
  then have "b * j + b \<le> b * k" by simp
  with m k j show ?thesis by simp
qed

lemma length_le_bytes [simp]: "length (le_bytes w) = 4"
  by (simp add: le_bytes_def)

lemma length_concat_le_bytes [simp]: "length (concat (map le_bytes ws)) = 4 * length ws"
  by (induction ws) simp_all

text \<open>
  A frame that passed the argument count check always yields a whole block; when the block
  size is a multiple of four the block is the bytes of the payload words.
\<close>

lemma length_block_bytes_accepted:
  assumes "command_get_arg_count data = BLOCK_SIZE cfg div 4 + 1"
  shows "length (block_bytes cfg data) = BLOCK_SIZE cfg"
proof -
  from assms have "length (tl data) = BLOCK_SIZE cfg div 4 + 1"
    by (simp add: command_get_arg_count_def)
  moreover have "BLOCK_SIZE cfg \<le> 4 * (BLOCK_SIZE cfg div 4 + 1)" by simp
  ultimately show ?thesis
    by (simp add: block_bytes_def)
qed

lemma length_block_bytes:
  assumes "command_get_arg_count data = BLOCK_SIZE cfg div 4 + 1" and "4 dvd BLOCK_SIZE cfg"
  shows "length (block_bytes cfg data) = BLOCK_SIZE cfg"
  using assms(1) by (rule length_block_bytes_accepted)

lemma block_bytes_words:
  assumes "length ws = BLOCK_SIZE cfg div 4" and "4 dvd BLOCK_SIZE cfg"
  shows "block_bytes cfg (a # ws @ [t]) = concat (map le_bytes ws)"
  using assms by (simp add: block_bytes_def)

lemma write_page_fields [simp]:
  "page_buffer (write_page cfg a s) = replicate (MAX_FLASH_PAGE_SIZE cfg) 0xFF"
  "last_page_address (write_page cfg a s) = a"
  "page_pending (write_page cfg a s) = 0"
  "is_in_transfer (write_page cfg a s) = is_in_transfer s"
  "complete (write_page cfg a s) = complete s"
  "flash_writes (write_page cfg a s)
     = flash_writes s @ [(a, take (unat (flash_page_size cfg)) (page_buffer s))]"
  "flash_completes (write_page cfg a s) = flash_completes s"
  "bootup_code (write_page cfg a s) = bootup_code s"
  "acks (write_page cfg a s) = acks s"
  by (simp_all add: write_page_def flash_write_page_def Let_def)

lemma stage_block_fields [simp]:
  "page_buffer (stage_block cfg data s)
     = memcpy_at (page_buffer s) (unat (page_pos cfg (hd data))) (block_bytes cfg data)"
  "last_page_address (stage_block cfg data s) = last_page_address s"
  "page_pending (stage_block cfg data s) = 1"
  "is_in_transfer (stage_block cfg data s) = 1"
  "complete (stage_block cfg data s) = complete s"
  "flash_mem (stage_block cfg data s) = flash_mem s"
  "flash_writes (stage_block cfg data s) = flash_writes s"
  "flash_completes (stage_block cfg data s) = flash_completes s"
  "bootup_code (stage_block cfg data s) = bootup_code s"
  "acks (stage_block cfg data s) = acks s"
  by (simp_all add: stage_block_def)

lemma respond_ack_fields [simp]:
  "page_buffer (command_respond_ack c ws bs s) = page_buffer s"
  "last_page_address (command_respond_ack c ws bs s) = last_page_address s"
  "page_pending (command_respond_ack c ws bs s) = page_pending s"
  "is_in_transfer (command_respond_ack c ws bs s) = is_in_transfer s"
  "complete (command_respond_ack c ws bs s) = complete s"
  "flash_mem (command_respond_ack c ws bs s) = flash_mem s"
  "flash_writes (command_respond_ack c ws bs s) = flash_writes s"
  "flash_completes (command_respond_ack c ws bs s) = flash_completes s"
  "bootup_code (command_respond_ack c ws bs s) = bootup_code s"
  "acks (command_respond_ack c ws bs s) = acks s @ [Ack c ws bs]"
  by (simp_all add: command_respond_ack_def)

lemma length_memcpy_at:
  "pos + length src \<le> length buf \<Longrightarrow> length (memcpy_at buf pos src) = length buf"
  by (simp add: memcpy_at_def)

lemma offset_sum_word:
  fixes pos p :: u32
  assumes "unat pos + b = unat p"
  shows "pos + of_nat b = p"
proof -
  have "of_nat (unat pos + b) = (of_nat (unat p) :: u32)" using assms by simp
  then show ?thesis by simp
qed

lemma write_block_commits:
  assumes acc: "write_block_accepts cfg data"
    and fill: "unat (page_pos cfg (hd data)) + BLOCK_SIZE cfg = unat (flash_page_size cfg)"
    and p0: "flash_page_size cfg \<noteq> 0"
    and cap: "unat (flash_page_size cfg) \<le> MAX_FLASH_PAGE_SIZE cfg"
  shows "command_write_block cfg data s =
     Inr (command_respond_ack CMD_RX_BLOCK [hd data] []
            (write_page cfg (hd data - page_pos cfg (hd data)) (stage_block cfg data s)))"
proof -
  from fill have "page_pos cfg (hd data) + of_nat (BLOCK_SIZE cfg) = flash_page_size cfg"
    by (rule offset_sum_word)
  moreover from fill cap
  have "unat (page_pos cfg (hd data)) + BLOCK_SIZE cfg \<le> MAX_FLASH_PAGE_SIZE cfg" by simp
  ultimately show ?thesis using acc p0 by (simp add: write_block_accepted)
qed

lemma write_block_pending:
  assumes acc: "write_block_accepts cfg data"
    and part: "unat (page_pos cfg (hd data)) + BLOCK_SIZE cfg < unat (flash_page_size cfg)"
    and cap: "unat (flash_page_size cfg) \<le> MAX_FLASH_PAGE_SIZE cfg"
  shows "command_write_block cfg data s =
     Inr (command_respond_ack CMD_RX_BLOCK [hd data] [] (stage_block cfg data s))"
proof -
  from part have p0: "flash_page_size cfg \<noteq> 0" by auto
  have "page_pos cfg (hd data) + of_nat (BLOCK_SIZE cfg) \<noteq> flash_page_size cfg"
  proof
    assume e: "page_pos cfg (hd data) + of_nat (BLOCK_SIZE cfg) = flash_page_size cfg"
    have "unat (page_pos cfg (hd data)) + BLOCK_SIZE cfg < 2 ^ 32"
      using part unsigned_less [of "flash_page_size cfg", where ?'a = nat] by simp
    then have "unat (page_pos cfg (hd data) + of_nat (BLOCK_SIZE cfg))
        = unat (page_pos cfg (hd data)) + BLOCK_SIZE cfg"
      by (simp add: unat_word_ariths unat_of_nat)
    with e part show False by simp
  qed
  moreover from part cap
  have "unat (page_pos cfg (hd data)) + BLOCK_SIZE cfg \<le> MAX_FLASH_PAGE_SIZE cfg" by simp
  ultimately show ?thesis using acc p0 by (simp add: write_block_accepted)
qed

lemma run_session_append:
  "run_session cfg (xs @ ys) s =
     (case run_session cfg xs s of Inl f \<Rightarrow> Inl f | Inr s' \<Rightarrow> run_session cfg ys s')"
  by (induction xs arbitrary: s) (simp_all split: sum.splits)

lemma length_flash_read_block [simp]:
  "length (flash_read_block cfg a s) = BLOCK_SIZE cfg"
  by (simp add: flash_read_block_def)

text \<open>What the boot decision leaves in the state when it enters the bootloader.\<close>

lemma check_application_code_buffer:
  assumes "check_application_code cfg s = Some (Inr (r, s1))"
  shows "page_buffer s1
       = flash_read_block cfg (APPLICATION_START cfg) s @ drop (BLOCK_SIZE cfg) (page_buffer s)
     \<and> last_page_address s1 = last_page_address s \<and> page_pending s1 = page_pending s
     \<and> flash_writes s1 = flash_writes s"
  using assms
  by (auto simp: check_application_code_def Let_def memcpy_at_def
        split: if_splits option.splits)

lemma entry_state:
  assumes "canboot_main cfg button (init_state cfg mem code) = Some (Inr (EnterBootloader, s0))"
  shows "last_page_address s0 = 0 \<and> page_pending s0 = 0 \<and> flash_writes s0 = []
     \<and> page_buffer s0 =
         (if code = REQUEST_SIG then replicate (MAX_FLASH_PAGE_SIZE cfg) 0
          else flash_read_block cfg (APPLICATION_START cfg) (init_state cfg mem code)
               @ replicate (MAX_FLASH_PAGE_SIZE cfg - BLOCK_SIZE cfg) 0)"
proof (cases "code = REQUEST_SIG")
  case True
  with assms have "s0 = set_bootup_code 0 (init_state cfg mem code)"
    by (simp add: canboot_main_def Let_def get_bootup_code_def init_state_def)
  with True show ?thesis
    by (simp add: set_bootup_code_def init_state_def)
next
  case False
  with assms obtain r s1 where c: "check_application_code cfg (init_state cfg mem code)
      = Some (Inr (r, s1))" and s0: "s0 = set_bootup_code 0 s1"
    by (auto simp: canboot_main_def Let_def get_bootup_code_def init_state_def
          split: option.splits sum.splits if_splits)
  from check_application_code_buffer [OF c] s0 False show ?thesis
    by (simp add: set_bootup_code_def init_state_def)
qed

lemma entry_buffer_tail:
  assumes "canboot_main cfg button (init_state cfg mem code) = Some (Inr (EnterBootloader, s0))"
    and "BLOCK_SIZE cfg \<le> MAX_FLASH_PAGE_SIZE cfg"
  shows "drop (BLOCK_SIZE cfg) (page_buffer s0)
     = replicate (MAX_FLASH_PAGE_SIZE cfg - BLOCK_SIZE cfg) 0"
  using entry_state [OF assms(1)] assms(2) by (simp split: if_splits)

subsection \<open>Staging stays inside the page (C2)\<close>

text \<open>
  C2, as stated: every write-block request that passes the handler's validation (argument
  count of one block plus header, address not below the application start) has
  \<open>offset + block_size \<le> page_size\<close> for \<open>offset = address mod page_size\<close>.
  The validation does not look at the alignment of the address. In the scenario
  configuration the request for address \<open>0x80E0\<close> passes both checks, its offset is 224 and
  \<open>224 + 64 > 256\<close>; the copy would run past the end of the page buffer.
\<close>

theorem write_block_unaligned_crosses_page:
  "write_block_accepts scenario_config (scenario_frame 0x80E0 0)
   \<and> \<not> unat (page_pos scenario_config 0x80E0) + BLOCK_SIZE scenario_config
         \<le> unat (flash_page_size scenario_config)
   \<and> command_write_block scenario_config (scenario_frame 0x80E0 0)
         (init_state scenario_config erased_flash 0) = Inl BufferOverrun"
  by code_simp

text \<open>
  C2, amended: for every write-block request that passes the validation and whose address is
  a multiple of the block size, where the block size divides the page size, the staging copy
  satisfies \<open>offset + block_size \<le> page_size\<close>; with a page buffer of at least one page the
  handler then completes without leaving the buffer.
\<close>

theorem write_block_aligned_stays_in_page:
  assumes "write_block_accepts cfg data"
    and "flash_page_size cfg \<noteq> 0"
    and "BLOCK_SIZE cfg dvd unat (flash_page_size cfg)"
    and "BLOCK_SIZE cfg dvd unat (hd data)"
    and "unat (flash_page_size cfg) \<le> MAX_FLASH_PAGE_SIZE cfg"
  shows "unat (page_pos cfg (hd data)) + BLOCK_SIZE cfg \<le> unat (flash_page_size cfg)
     \<and> (\<exists>s'. command_write_block cfg data s = Inr s')"
proof -
  have fits: "unat (page_pos cfg (hd data)) + BLOCK_SIZE cfg \<le> unat (flash_page_size cfg)"
    unfolding page_pos_def using assms(2,3,4) by (rule aligned_block_fits)
  with assms(5)
  have "unat (page_pos cfg (hd data)) + BLOCK_SIZE cfg \<le> MAX_FLASH_PAGE_SIZE cfg"
    by simp
  with assms(1,2) have "\<exists>s'. command_write_block cfg data s = Inr s'"
    by (simp add: write_block_accepted)
  with fits show ?thesis by simp
qed

theorem write_block_aligned_stays_in_page_witness:
  "write_block_accepts scenario_config (scenario_frame 0x80C0 0)
   \<and> unat (page_pos scenario_config (hd (scenario_frame 0x80C0 0))) + BLOCK_SIZE scenario_config
        \<le> unat (flash_page_size scenario_config)
   \<and> (\<exists>s'. command_write_block scenario_config (scenario_frame 0x80C0 0)
              (init_state scenario_config erased_flash 0) = Inr s')"
proof -
  have a: "write_block_accepts scenario_config (scenario_frame 0x80C0 0)" by code_simp
  have b: "flash_page_size scenario_config \<noteq> 0" by code_simp
  have c: "BLOCK_SIZE scenario_config dvd unat (flash_page_size scenario_config)"
    by (simp add: scenario_config_def)
  have d: "BLOCK_SIZE scenario_config dvd unat (hd (scenario_frame 0x80C0 0))"
    by (simp add: scenario_config_def scenario_frame_def)
  have e: "unat (flash_page_size scenario_config) \<le> MAX_FLASH_PAGE_SIZE scenario_config"
    by (simp add: scenario_config_def)
  from write_block_aligned_stays_in_page [OF a b c d e] a show ?thesis by blast
qed

subsection \<open>Rejected requests (C3, C4)\<close>

text \<open>
  C3, as stated: an invalid write-block request gets an error acknowledgement and changes
  nothing: PageBuffer, \<open>last_page_address\<close>, \<open>page_pending\<close>, \<open>is_in_transfer\<close> and the
  completion flag are as before. The handler sets \<open>is_in_transfer\<close> before it validates
  anything: a frame without arguments, sent to the freshly initialised state, is rejected
  and leaves \<open>is_in_transfer\<close> at 1 where it was 0.
\<close>

theorem write_block_invalid_sets_transfer_flag:
  "command_write_block scenario_config [0x0399C0DE] (init_state scenario_config erased_flash 0)
     = Inr ((init_state scenario_config erased_flash 0)
              \<lparr> is_in_transfer := 1, acks := [CommandError] \<rparr>)
   \<and> is_in_transfer ((init_state scenario_config erased_flash 0)
              \<lparr> is_in_transfer := 1, acks := [CommandError] \<rparr>)
       \<noteq> is_in_transfer (init_state scenario_config erased_flash 0)"
  by (simp add: write_block_rejects write_block_accepts_def command_get_arg_count_def
        init_state_def)

text \<open>
  C3, amended: for every invalid request (write-block with a wrong argument count or with an
  address below the application start) the handler emits an error acknowledgement and leaves
  PageBuffer, \<open>last_page_address\<close>, \<open>page_pending\<close> and the completion flag unchanged;
  \<open>is_in_transfer\<close> is set to 1.
\<close>

theorem write_block_invalid_state_change:
  assumes "command_get_arg_count data \<noteq> BLOCK_SIZE cfg div 4 + 1
           \<or> hd data < APPLICATION_START cfg"
  shows "\<exists>s'. command_write_block cfg data s = Inr s' \<and> last (acks s') = CommandError
     \<and> page_buffer s' = page_buffer s \<and> last_page_address s' = last_page_address s
     \<and> page_pending s' = page_pending s \<and> complete s' = complete s
     \<and> is_in_transfer s' = 1"
proof -
  from assms have "\<not> write_block_accepts cfg data"
    by (auto simp: write_block_accepts_def)
  then show ?thesis
    by (simp add: write_block_rejects)
qed

theorem write_block_invalid_state_change_witness:
  "hd (scenario_frame 0x7FC0 0) < APPLICATION_START scenario_config
   \<and> (\<exists>s'. command_write_block scenario_config (scenario_frame 0x7FC0 0)
              (init_state scenario_config erased_flash 0) = Inr s'
        \<and> last (acks s') = CommandError
        \<and> page_buffer s' = page_buffer (init_state scenario_config erased_flash 0)
        \<and> last_page_address s' = last_page_address (init_state scenario_config erased_flash 0)
        \<and> page_pending s' = page_pending (init_state scenario_config erased_flash 0)
        \<and> complete s' = complete (init_state scenario_config erased_flash 0)
        \<and> is_in_transfer s' = 1)"
proof -
  have h: "command_get_arg_count (scenario_frame 0x7FC0 0) \<noteq> BLOCK_SIZE scenario_config div 4 + 1
      \<or> hd (scenario_frame 0x7FC0 0) < APPLICATION_START scenario_config"
    by (simp add: scenario_config_def scenario_frame_def)
  have a: "hd (scenario_frame 0x7FC0 0) < APPLICATION_START scenario_config"
    by (simp add: scenario_config_def scenario_frame_def)
  from write_block_invalid_state_change [OF h] a show ?thesis by blast
qed

text \<open>
  C4: a write-block request with an address below the application start, or with an
  argument count other than one block plus header, is answered with an error acknowledgement
  and leaves \<open>last_page_address\<close>, \<open>page_pending\<close> and PageBuffer unchanged; nothing is
  written to flash.
\<close>

theorem write_block_invalid_rejected:
  assumes "hd data < APPLICATION_START cfg
           \<or> command_get_arg_count data \<noteq> BLOCK_SIZE cfg div 4 + 1"
  shows "\<exists>s'. command_write_block cfg data s = Inr s' \<and> acks s' = acks s @ [CommandError]
     \<and> last_page_address s' = last_page_address s \<and> page_pending s' = page_pending s
     \<and> page_buffer s' = page_buffer s
     \<and> flash_writes s' = flash_writes s \<and> flash_mem s' = flash_mem s"
proof -
  from assms have "\<not> write_block_accepts cfg data"
    by (auto simp: write_block_accepts_def)
  then show ?thesis
    by (simp add: write_block_rejects)
qed

theorem write_block_invalid_rejected_witness:
  "(hd [0x8000, 1, 2] < APPLICATION_START scenario_config
      \<or> command_get_arg_count [0x8000, 1, 2] \<noteq> BLOCK_SIZE scenario_config div 4 + 1)
   \<and> (\<exists>s'. command_write_block scenario_config [0x8000, 1, 2]
              (init_state scenario_config erased_flash 0) = Inr s'
        \<and> acks s' = acks (init_state scenario_config erased_flash 0) @ [CommandError]
        \<and> last_page_address s' = last_page_address (init_state scenario_config erased_flash 0)
        \<and> page_pending s' = page_pending (init_state scenario_config erased_flash 0)
        \<and> page_buffer s' = page_buffer (init_state scenario_config erased_flash 0)
        \<and> flash_writes s' = flash_writes (init_state scenario_config erased_flash 0)
        \<and> flash_mem s' = flash_mem (init_state scenario_config erased_flash 0))"
proof -
  have h: "hd [0x8000, 1, 2] < APPLICATION_START scenario_config
      \<or> command_get_arg_count [0x8000, 1, 2] \<noteq> BLOCK_SIZE scenario_config div 4 + 1"
    by (simp add: scenario_config_def command_get_arg_count_def)
  from write_block_invalid_rejected [OF h] h show ?thesis by blast
qed

subsection \<open>A page is committed when its last block arrives (C5)\<close>

lemma scenario_block_accepted:
  assumes "APPLICATION_START cfg = 0x8000" and "BLOCK_SIZE cfg = 64"
    and "command_get_arg_count d = 17" and "hd d = a" and "0x8000 \<le> a"
  shows "write_block_accepts cfg d"
  using assms by (simp add: write_block_accepts_def not_less)

lemma scenario_block_length:
  assumes "BLOCK_SIZE cfg = 64" and "command_get_arg_count d = 17"
  shows "length (block_bytes cfg d) = 64"
  using length_block_bytes [of d cfg] assms by simp

lemma scenario_frame_block:
  assumes "BLOCK_SIZE cfg = 64" and "length ws = 16"
  shows "block_bytes cfg (a # ws @ [t]) = concat (map le_bytes ws)"
  using assms by (intro block_bytes_words) simp_all

text \<open>
  C5: with application start \<open>0x8000\<close>, blocks of 64 and pages of 256 bytes, four valid
  write-block calls at \<open>0x8000\<close>, \<open>0x8040\<close>, \<open>0x8080\<close>, \<open>0x80C0\<close> make exactly one
  flash commit, during the fourth call, at \<open>0x8000\<close>, holding the four payloads (the bytes
  of the sixteen payload words of each frame, in memory order) one after the other. In
  general a write with \<open>offset + block_size = page_size\<close> commits the page at
  \<open>address - offset\<close> at once (the page buffer with the \<^verbatim>\<open>CONFIG_BLOCK_SIZE\<close> bytes behind
  the address word copied to \<open>offset\<close>), and afterwards PageBuffer is all fill value and
  \<open>page_pending\<close> is cleared.
\<close>

theorem full_page_commit:
  "(write_block_accepts cfg data
      \<and> unat (page_pos cfg (hd data)) + BLOCK_SIZE cfg = unat (flash_page_size cfg)
      \<and> flash_page_size cfg \<noteq> 0
      \<and> unat (flash_page_size cfg) \<le> MAX_FLASH_PAGE_SIZE cfg
    \<longrightarrow> (\<exists>s'. command_write_block cfg data s = Inr s'
          \<and> flash_writes s' = flash_writes s @
                [(hd data - page_pos cfg (hd data),
                  take (unat (flash_page_size cfg))
                    (take (unat (page_pos cfg (hd data))) (page_buffer s)
                     @ take (BLOCK_SIZE cfg) (concat (map le_bytes (tl data)))
                     @ drop (unat (page_pos cfg (hd data)) + BLOCK_SIZE cfg) (page_buffer s)))]
          \<and> page_buffer s' = replicate (MAX_FLASH_PAGE_SIZE cfg) 0xFF
          \<and> page_pending s' = 0))
   \<and> (APPLICATION_START cfg = 0x8000 \<and> BLOCK_SIZE cfg = 64 \<and> flash_page_size cfg = 256
      \<and> 256 \<le> MAX_FLASH_PAGE_SIZE cfg \<and> length (page_buffer s) = MAX_FLASH_PAGE_SIZE cfg
      \<and> length ws1 = 16 \<and> length ws2 = 16 \<and> length ws3 = 16 \<and> length ws4 = 16
    \<longrightarrow> (\<exists>s3 s4. run_session cfg
                 [RxBlock (0x8000 # ws1 @ [t1]), RxBlock (0x8040 # ws2 @ [t2]),
                  RxBlock (0x8080 # ws3 @ [t3])] s = Inr s3
          \<and> flash_writes s3 = flash_writes s
          \<and> command_write_block cfg (0x80C0 # ws4 @ [t4]) s3 = Inr s4
          \<and> flash_writes s4 = flash_writes s @
                [(0x8000, concat (map le_bytes ws1) @ concat (map le_bytes ws2)
                          @ concat (map le_bytes ws3) @ concat (map le_bytes ws4))]
          \<and> page_buffer s4 = replicate (MAX_FLASH_PAGE_SIZE cfg) 0xFF
          \<and> page_pending s4 = 0))"
proof (intro conjI impI)
  assume h: "write_block_accepts cfg data
      \<and> unat (page_pos cfg (hd data)) + BLOCK_SIZE cfg = unat (flash_page_size cfg)
      \<and> flash_page_size cfg \<noteq> 0
      \<and> unat (flash_page_size cfg) \<le> MAX_FLASH_PAGE_SIZE cfg"
  then have w: "command_write_block cfg data s =
     Inr (command_respond_ack CMD_RX_BLOCK [hd data] []
            (write_page cfg (hd data - page_pos cfg (hd data)) (stage_block cfg data s)))"
    by (simp add: write_block_commits)
  from h have "length (block_bytes cfg data) = BLOCK_SIZE cfg"
    by (simp add: write_block_accepts_def length_block_bytes_accepted)
  then have "page_buffer (stage_block cfg data s)
      = take (unat (page_pos cfg (hd data))) (page_buffer s)
        @ take (BLOCK_SIZE cfg) (concat (map le_bytes (tl data)))
        @ drop (unat (page_pos cfg (hd data)) + BLOCK_SIZE cfg) (page_buffer s)"
    by (simp add: memcpy_at_def) (simp add: block_bytes_def)
  with w show "\<exists>s'. command_write_block cfg data s = Inr s'
          \<and> flash_writes s' = flash_writes s @
                [(hd data - page_pos cfg (hd data),
                  take (unat (flash_page_size cfg))
                    (take (unat (page_pos cfg (hd data))) (page_buffer s)
                     @ take (BLOCK_SIZE cfg) (concat (map le_bytes (tl data)))
                     @ drop (unat (page_pos cfg (hd data)) + BLOCK_SIZE cfg) (page_buffer s)))]
          \<and> page_buffer s' = replicate (MAX_FLASH_PAGE_SIZE cfg) 0xFF
          \<and> page_pending s' = 0"
    by simp
next
  assume h: "APPLICATION_START cfg = 0x8000 \<and> BLOCK_SIZE cfg = 64 \<and> flash_page_size cfg = 256
      \<and> 256 \<le> MAX_FLASH_PAGE_SIZE cfg \<and> length (page_buffer s) = MAX_FLASH_PAGE_SIZE cfg
      \<and> length ws1 = 16 \<and> length ws2 = 16 \<and> length ws3 = 16 \<and> length ws4 = 16"
  then have cfg: "APPLICATION_START cfg = 0x8000" "BLOCK_SIZE cfg = 64"
      "flash_page_size cfg = 256" "256 \<le> MAX_FLASH_PAGE_SIZE cfg"
    and len: "length (page_buffer s) = MAX_FLASH_PAGE_SIZE cfg"
    and ws: "length ws1 = 16" "length ws2 = 16" "length ws3 = 16" "length ws4 = 16"
    by simp_all
  let ?d1 = "0x8000 # ws1 @ [t1]" and ?d2 = "0x8040 # ws2 @ [t2]"
    and ?d3 = "0x8080 # ws3 @ [t3]" and ?d4 = "0x80C0 # ws4 @ [t4]"
  have d: "command_get_arg_count ?d1 = 17" "command_get_arg_count ?d2 = 17"
      "command_get_arg_count ?d3 = 17" "command_get_arg_count ?d4 = 17"
    using ws by (simp_all add: command_get_arg_count_def)
  have a: "hd ?d1 = 0x8000" "hd ?d2 = 0x8040" "hd ?d3 = 0x8080" "hd ?d4 = 0x80C0"
    by simp_all
  have acc: "write_block_accepts cfg ?d1" "write_block_accepts cfg ?d2"
      "write_block_accepts cfg ?d3" "write_block_accepts cfg ?d4"
    using cfg d by (simp_all add: scenario_block_accepted)
  have bb: "block_bytes cfg ?d1 = concat (map le_bytes ws1)"
      "block_bytes cfg ?d2 = concat (map le_bytes ws2)"
      "block_bytes cfg ?d3 = concat (map le_bytes ws3)"
      "block_bytes cfg ?d4 = concat (map le_bytes ws4)"
    using cfg(2) ws by (simp_all add: scenario_frame_block)
  have bl: "length (block_bytes cfg ?d1) = 64" "length (block_bytes cfg ?d2) = 64"
      "length (block_bytes cfg ?d3) = 64" "length (block_bytes cfg ?d4) = 64"
    using cfg d by (simp_all add: scenario_block_length del: hd_append2 list.sel)
  have pos: "unat (page_pos cfg (hd ?d1)) = 0" "unat (page_pos cfg (hd ?d2)) = 64"
      "unat (page_pos cfg (hd ?d3)) = 128" "unat (page_pos cfg (hd ?d4)) = 192"
    using cfg by (simp_all add: page_pos_def)
  have base: "hd ?d4 - page_pos cfg (hd ?d4) = 0x8000"
    using cfg by (simp add: page_pos_def)
  define s1 where "s1 = command_respond_ack CMD_RX_BLOCK [hd ?d1] [] (stage_block cfg ?d1 s)"
  define s2 where "s2 = command_respond_ack CMD_RX_BLOCK [hd ?d2] [] (stage_block cfg ?d2 s1)"
  define s3 where "s3 = command_respond_ack CMD_RX_BLOCK [hd ?d3] [] (stage_block cfg ?d3 s2)"
  define s4 where "s4 = command_respond_ack CMD_RX_BLOCK [hd ?d4] []
      (write_page cfg (hd ?d4 - page_pos cfg (hd ?d4)) (stage_block cfg ?d4 s3))"
  have w1: "command_write_block cfg ?d1 s = Inr s1"
    unfolding s1_def using acc(1) cfg pos(1) by (intro write_block_pending) simp_all
  have w2: "command_write_block cfg ?d2 s1 = Inr s2"
    unfolding s2_def using acc(2) cfg pos(2) by (intro write_block_pending) simp_all
  have w3: "command_write_block cfg ?d3 s2 = Inr s3"
    unfolding s3_def using acc(3) cfg pos(3) by (intro write_block_pending) simp_all
  have w4: "command_write_block cfg ?d4 s3 = Inr s4"
    unfolding s4_def using acc(4) cfg pos(4) by (intro write_block_commits) simp_all
  have run: "run_session cfg [RxBlock ?d1, RxBlock ?d2, RxBlock ?d3] s = Inr s3"
    by (simp add: w1 w2 w3)
  have fw3: "flash_writes s3 = flash_writes s"
    by (simp add: s3_def s2_def s1_def)
  have b3: "take 256 (page_buffer (stage_block cfg ?d4 s3))
      = block_bytes cfg ?d1 @ block_bytes cfg ?d2 @ block_bytes cfg ?d3 @ block_bytes cfg ?d4"
    using len cfg(4) bl pos
    by (simp add: s3_def s2_def s1_def memcpy_at_def)
  have fw4: "flash_writes s4 = flash_writes s @
      [(0x8000, concat (map le_bytes ws1) @ concat (map le_bytes ws2)
                @ concat (map le_bytes ws3) @ concat (map le_bytes ws4))]"
    using b3 fw3 base cfg(3) unfolding bb by (simp add: s4_def)
  have "page_buffer s4 = replicate (MAX_FLASH_PAGE_SIZE cfg) 0xFF" "page_pending s4 = 0"
    by (simp_all add: s4_def)
  with run fw3 w4 fw4
  show "\<exists>s3 s4. run_session cfg [RxBlock ?d1, RxBlock ?d2, RxBlock ?d3] s = Inr s3
          \<and> flash_writes s3 = flash_writes s
          \<and> command_write_block cfg ?d4 s3 = Inr s4
          \<and> flash_writes s4 = flash_writes s @
                [(0x8000, concat (map le_bytes ws1) @ concat (map le_bytes ws2)
                          @ concat (map le_bytes ws3) @ concat (map le_bytes ws4))]
          \<and> page_buffer s4 = replicate (MAX_FLASH_PAGE_SIZE cfg) 0xFF
          \<and> page_pending s4 = 0"
    by blast
qed


theorem full_page_commit_witness:
  "(write_block_accepts scenario_config (0x80C0 # replicate 16 0x00FFEEDD @ [0x0399C0DE])
      \<and> unat (page_pos scenario_config (hd (0x80C0 # replicate 16 0x00FFEEDD @ [0x0399C0DE])))
            + BLOCK_SIZE scenario_config = unat (flash_page_size scenario_config)
      \<and> flash_page_size scenario_config \<noteq> 0
      \<and> unat (flash_page_size scenario_config) \<le> MAX_FLASH_PAGE_SIZE scenario_config)
   \<and> (\<exists>s'. command_write_block scenario_config (0x80C0 # replicate 16 0x00FFEEDD @ [0x0399C0DE]) (init_state scenario_config erased_flash 0) = Inr s'
          \<and> flash_writes s' = flash_writes (init_state scenario_config erased_flash 0) @
                [(hd (0x80C0 # replicate 16 0x00FFEEDD @ [0x0399C0DE]) - page_pos scenario_config (hd (0x80C0 # replicate 16 0x00FFEEDD @ [0x0399C0DE])),
                  take (unat (flash_page_size scenario_config))
                    (take (unat (page_pos scenario_config (hd (0x80C0 # replicate 16 0x00FFEEDD @ [0x0399C0DE])))) (page_buffer (init_state scenario_config erased_flash 0))
                     @ take (BLOCK_SIZE scenario_config) (concat (map le_bytes (tl (0x80C0 # replicate 16 0x00FFEEDD @ [0x0399C0DE]))))
                     @ drop (unat (page_pos scenario_config (hd (0x80C0 # replicate 16 0x00FFEEDD @ [0x0399C0DE]))) + BLOCK_SIZE scenario_config)
                         (page_buffer (init_state scenario_config erased_flash 0))))]
          \<and> page_buffer s' = replicate (MAX_FLASH_PAGE_SIZE scenario_config) 0xFF
          \<and> page_pending s' = 0)
   \<and> hd (0x80C0 # replicate 16 0x00FFEEDD @ [0x0399C0DE]) - page_pos scenario_config (hd (0x80C0 # replicate 16 0x00FFEEDD @ [0x0399C0DE])) = 0x8000
   \<and> take (unat (flash_page_size scenario_config))
         (take (unat (page_pos scenario_config (hd (0x80C0 # replicate 16 0x00FFEEDD @ [0x0399C0DE])))) (page_buffer (init_state scenario_config erased_flash 0))
          @ take (BLOCK_SIZE scenario_config) (concat (map le_bytes (tl (0x80C0 # replicate 16 0x00FFEEDD @ [0x0399C0DE]))))
          @ drop (unat (page_pos scenario_config (hd (0x80C0 # replicate 16 0x00FFEEDD @ [0x0399C0DE]))) + BLOCK_SIZE scenario_config)
              (page_buffer (init_state scenario_config erased_flash 0)))
       = replicate 192 0 @ concat (replicate 16 [0xDD, 0xEE, 0xFF, 0x00])
   \<and> (APPLICATION_START scenario_config = 0x8000 \<and> BLOCK_SIZE scenario_config = 64
      \<and> flash_page_size scenario_config = 256
      \<and> 256 \<le> MAX_FLASH_PAGE_SIZE scenario_config
      \<and> length (page_buffer (init_state scenario_config erased_flash 0)) = MAX_FLASH_PAGE_SIZE scenario_config
      \<and> length (replicate 16 (0x44332211 :: u32)) = 16
      \<and> length (replicate 16 (0x88776655 :: u32)) = 16
      \<and> length (replicate 16 (0xCCBBAA99 :: u32)) = 16
      \<and> length (replicate 16 (0x00FFEEDD :: u32)) = 16)
   \<and> (\<exists>s3 s4. run_session scenario_config
                 [RxBlock (0x8000 # replicate 16 0x44332211 @ [0x0399C0DE]),
                  RxBlock (0x8040 # replicate 16 0x88776655 @ [0x0399C0DE]),
                  RxBlock (0x8080 # replicate 16 0xCCBBAA99 @ [0x0399C0DE])] (init_state scenario_config erased_flash 0) = Inr s3
          \<and> flash_writes s3 = flash_writes (init_state scenario_config erased_flash 0)
          \<and> command_write_block scenario_config (0x80C0 # replicate 16 0x00FFEEDD @ [0x0399C0DE]) s3 = Inr s4
          \<and> flash_writes s4 = flash_writes (init_state scenario_config erased_flash 0) @
                [(0x8000, concat (map le_bytes (replicate 16 0x44332211))
                          @ concat (map le_bytes (replicate 16 0x88776655))
                          @ concat (map le_bytes (replicate 16 0xCCBBAA99))
                          @ concat (map le_bytes (replicate 16 0x00FFEEDD)))]
          \<and> page_buffer s4 = replicate (MAX_FLASH_PAGE_SIZE scenario_config) 0xFF
          \<and> page_pending s4 = 0)
   \<and> concat (map le_bytes (replicate 16 0x44332211))
         @ concat (map le_bytes (replicate 16 0x88776655))
         @ concat (map le_bytes (replicate 16 0xCCBBAA99))
         @ concat (map le_bytes (replicate 16 0x00FFEEDD))
       = concat (replicate 16 [0x11, 0x22, 0x33, 0x44])
         @ concat (replicate 16 [0x55, 0x66, 0x77, 0x88])
         @ concat (replicate 16 [0x99, 0xAA, 0xBB, 0xCC])
         @ concat (replicate 16 [0xDD, 0xEE, 0xFF, 0x00])"
proof -
  have h1: "write_block_accepts scenario_config (0x80C0 # replicate 16 0x00FFEEDD @ [0x0399C0DE])
      \<and> unat (page_pos scenario_config (hd (0x80C0 # replicate 16 0x00FFEEDD @ [0x0399C0DE])))
            + BLOCK_SIZE scenario_config = unat (flash_page_size scenario_config)
      \<and> flash_page_size scenario_config \<noteq> 0
      \<and> unat (flash_page_size scenario_config) \<le> MAX_FLASH_PAGE_SIZE scenario_config"
    by code_simp
  have e1: "hd (0x80C0 # replicate 16 0x00FFEEDD @ [0x0399C0DE]) - page_pos scenario_config (hd (0x80C0 # replicate 16 0x00FFEEDD @ [0x0399C0DE])) = 0x8000
   \<and> take (unat (flash_page_size scenario_config))
         (take (unat (page_pos scenario_config (hd (0x80C0 # replicate 16 0x00FFEEDD @ [0x0399C0DE])))) (page_buffer (init_state scenario_config erased_flash 0))
          @ take (BLOCK_SIZE scenario_config) (concat (map le_bytes (tl (0x80C0 # replicate 16 0x00FFEEDD @ [0x0399C0DE]))))
          @ drop (unat (page_pos scenario_config (hd (0x80C0 # replicate 16 0x00FFEEDD @ [0x0399C0DE]))) + BLOCK_SIZE scenario_config)
              (page_buffer (init_state scenario_config erased_flash 0)))
       = replicate 192 0 @ concat (replicate 16 [0xDD, 0xEE, 0xFF, 0x00])"
    by code_simp
  have h2: "APPLICATION_START scenario_config = 0x8000 \<and> BLOCK_SIZE scenario_config = 64
      \<and> flash_page_size scenario_config = 256
      \<and> 256 \<le> MAX_FLASH_PAGE_SIZE scenario_config
      \<and> length (page_buffer (init_state scenario_config erased_flash 0)) = MAX_FLASH_PAGE_SIZE scenario_config
      \<and> length (replicate 16 (0x44332211 :: u32)) = 16
      \<and> length (replicate 16 (0x88776655 :: u32)) = 16
      \<and> length (replicate 16 (0xCCBBAA99 :: u32)) = 16
      \<and> length (replicate 16 (0x00FFEEDD :: u32)) = 16"
    by code_simp
  have e2: "concat (map le_bytes (replicate 16 0x44332211))
         @ concat (map le_bytes (replicate 16 0x88776655))
         @ concat (map le_bytes (replicate 16 0xCCBBAA99))
         @ concat (map le_bytes (replicate 16 0x00FFEEDD))
       = concat (replicate 16 [0x11, 0x22, 0x33, 0x44])
         @ concat (replicate 16 [0x55, 0x66, 0x77, 0x88])
         @ concat (replicate 16 [0x99, 0xAA, 0xBB, 0xCC])
         @ concat (replicate 16 [0xDD, 0xEE, 0xFF, 0x00])"
    by code_simp
  note t = full_page_commit [of scenario_config "0x80C0 # replicate 16 0x00FFEEDD @ [0x0399C0DE]"
      "init_state scenario_config erased_flash 0"
      "replicate 16 0x44332211" "replicate 16 0x88776655" "replicate 16 0xCCBBAA99"
      "replicate 16 0x00FFEEDD" "0x0399C0DE" "0x0399C0DE" "0x0399C0DE" "0x0399C0DE"]
  from t [THEN conjunct1] h1 have c1: "\<exists>s'. command_write_block scenario_config (0x80C0 # replicate 16 0x00FFEEDD @ [0x0399C0DE]) (init_state scenario_config erased_flash 0) = Inr s'
          \<and> flash_writes s' = flash_writes (init_state scenario_config erased_flash 0) @
                [(hd (0x80C0 # replicate 16 0x00FFEEDD @ [0x0399C0DE]) - page_pos scenario_config (hd (0x80C0 # replicate 16 0x00FFEEDD @ [0x0399C0DE])),
                  take (unat (flash_page_size scenario_config))
                    (take (unat (page_pos scenario_config (hd (0x80C0 # replicate 16 0x00FFEEDD @ [0x0399C0DE])))) (page_buffer (init_state scenario_config erased_flash 0))
                     @ take (BLOCK_SIZE scenario_config) (concat (map le_bytes (tl (0x80C0 # replicate 16 0x00FFEEDD @ [0x0399C0DE]))))
                     @ drop (unat (page_pos scenario_config (hd (0x80C0 # replicate 16 0x00FFEEDD @ [0x0399C0DE]))) + BLOCK_SIZE scenario_config)
                         (page_buffer (init_state scenario_config erased_flash 0))))]
          \<and> page_buffer s' = replicate (MAX_FLASH_PAGE_SIZE scenario_config) 0xFF
          \<and> page_pending s' = 0"
    by (rule mp)
  from t [THEN conjunct2] h2 have c2: "\<exists>s3 s4. run_session scenario_config
                 [RxBlock (0x8000 # replicate 16 0x44332211 @ [0x0399C0DE]),
                  RxBlock (0x8040 # replicate 16 0x88776655 @ [0x0399C0DE]),
                  RxBlock (0x8080 # replicate 16 0xCCBBAA99 @ [0x0399C0DE])] (init_state scenario_config erased_flash 0) = Inr s3
          \<and> flash_writes s3 = flash_writes (init_state scenario_config erased_flash 0)
          \<and> command_write_block scenario_config (0x80C0 # replicate 16 0x00FFEEDD @ [0x0399C0DE]) s3 = Inr s4
          \<and> flash_writes s4 = flash_writes (init_state scenario_config erased_flash 0) @
                [(0x8000, concat (map le_bytes (replicate 16 0x44332211))
                          @ concat (map le_bytes (replicate 16 0x88776655))
                          @ concat (map le_bytes (replicate 16 0xCCBBAA99))
                          @ concat (map le_bytes (replicate 16 0x00FFEEDD)))]
          \<and> page_buffer s4 = replicate (MAX_FLASH_PAGE_SIZE scenario_config) 0xFF
          \<and> page_pending s4 = 0"
    by (rule mp)
  show ?thesis
    by (intro conjI h1 [THEN conjunct1] h1 [THEN conjunct2, THEN conjunct1]
          h1 [THEN conjunct2, THEN conjunct2, THEN conjunct1]
          h1 [THEN conjunct2, THEN conjunct2, THEN conjunct2] c1
          e1 [THEN conjunct1] e1 [THEN conjunct2] h2 c2 e2)
qed

subsection \<open>A partial first page (C1, C7)\<close>

text \<open>
  C1 says that with application start \<open>0x8000\<close>, blocks of 64 and pages of 256 bytes, one
  write-block at \<open>0x8000\<close> followed by end-of-file commits one page at \<open>0x8000\<close>, the 64
  bytes followed by 192 bytes \<open>0xFF\<close>, and that end-of-file reports 1 page.
  The code, run from start-up: the flush at end-of-file goes to
  \<open>last_page_address + page_size\<close> with \<open>last_page_address\<close> still at its initial 0, so the
  one commit is at \<open>0x100\<close>; the page buffer has never been filled with \<open>0xFF\<close>, so the
  padding is the 192 zero bytes of static initialisation; and the reported count is
  \<open>(0x100 - 0x8000) / 256 + 1\<close> in 32-bit arithmetic, \<open>0xFFFF82\<close>. This is so on both
  ways into the bootloader, by request of the application and by an erased flash.
\<close>

theorem partial_first_page_flush:
  "canboot_main scenario_config False (init_state scenario_config erased_flash REQUEST_SIG)
     = Some (Inr (EnterBootloader, requested_entry))
   \<and> map_sum id flash_writes
       (run_session scenario_config [RxBlock (scenario_frame 0x8000 0x44332211), RxEof []]
          requested_entry)
     = Inr [(0x100, block_bytes scenario_config (scenario_frame 0x8000 0x44332211)
                    @ replicate 192 0)]
   \<and> length (block_bytes scenario_config (scenario_frame 0x8000 0x44332211)) = 64
   \<and> map_sum id acks
       (run_session scenario_config [RxBlock (scenario_frame 0x8000 0x44332211), RxEof []]
          requested_entry)
     = Inr [Ack CMD_RX_BLOCK [0x8000] [], Ack CMD_RX_EOF [0xFFFF82] []]
   \<and> canboot_main scenario_config False (init_state scenario_config erased_flash 0)
     = Some (Inr (EnterBootloader, scanned_entry))
   \<and> map_sum id flash_writes
       (run_session scenario_config [RxBlock (scenario_frame 0x8000 0x44332211), RxEof []]
          scanned_entry)
     = Inr [(0x100, block_bytes scenario_config (scenario_frame 0x8000 0x44332211)
                    @ replicate 192 0)]
   \<and> map_sum id acks
       (run_session scenario_config [RxBlock (scenario_frame 0x8000 0x44332211), RxEof []]
          scanned_entry)
     = Inr [Ack CMD_RX_BLOCK [0x8000] [], Ack CMD_RX_EOF [0xFFFF82] []]"
  by code_simp

text \<open>
  C7 says that end-of-file of a contiguous session starting at the application start
  acknowledges with the number of pages written. Three blocks at \<open>0x8000\<close>, \<open>0x8040\<close>,
  \<open>0x8080\<close> and end-of-file write one page; the acknowledgement carries \<open>0xFFFF82\<close>.
\<close>

theorem partial_first_page_count:
  "map_sum id acks
       (run_session scenario_config
          [RxBlock (scenario_frame 0x8000 1), RxBlock (scenario_frame 0x8040 2),
           RxBlock (scenario_frame 0x8080 3), RxEof []]
          requested_entry)
     = Inr [Ack CMD_RX_BLOCK [0x8000] [], Ack CMD_RX_BLOCK [0x8040] [],
            Ack CMD_RX_BLOCK [0x8080] [], Ack CMD_RX_EOF [0xFFFF82] []]
   \<and> map_sum id (map fst)
       (map_sum id flash_writes
         (run_session scenario_config
            [RxBlock (scenario_frame 0x8000 1), RxBlock (scenario_frame 0x8040 2),
             RxBlock (scenario_frame 0x8080 3), RxEof []]
            requested_entry))
     = Inr [0x100]"
  by code_simp

subsection \<open>Handlers do not look at the session state (C10)\<close>

lemma eof_result:
  assumes "flash_page_size cfg \<noteq> 0"
  shows "command_eof cfg d s =
     Inr (command_respond_ack CMD_RX_EOF
            [(last_page_address
                (if page_pending s \<noteq> 0
                 then write_page cfg (last_page_address s + flash_page_size cfg)
                        (s\<lparr> is_in_transfer := 0 \<rparr>)
                 else s\<lparr> is_in_transfer := 0 \<rparr>)
               - APPLICATION_START cfg) div flash_page_size cfg + 1] []
            (flash_complete
               (if page_pending s \<noteq> 0
                then write_page cfg (last_page_address s + flash_page_size cfg)
                       (s\<lparr> is_in_transfer := 0 \<rparr>)
                else s\<lparr> is_in_transfer := 0 \<rparr>)))"
  using assms by (simp add: command_eof_def Let_def flash_complete_def)

lemma eof_idle:
  assumes "flash_page_size cfg \<noteq> 0" and "page_pending s = 0"
  shows "command_eof cfg d s =
     Inr (command_respond_ack CMD_RX_EOF
            [(last_page_address s - APPLICATION_START cfg) div flash_page_size cfg + 1] []
            (flash_complete (s\<lparr> is_in_transfer := 0 \<rparr>)))"
  using assms by (simp add: eof_result)

lemma flash_complete_fields [simp]:
  "page_buffer (flash_complete s) = page_buffer s"
  "last_page_address (flash_complete s) = last_page_address s"
  "page_pending (flash_complete s) = page_pending s"
  "is_in_transfer (flash_complete s) = is_in_transfer s"
  "complete (flash_complete s) = complete s"
  "flash_mem (flash_complete s) = flash_mem s"
  "flash_writes (flash_complete s) = flash_writes s"
  "flash_completes (flash_complete s) = Suc (flash_completes s)"
  "bootup_code (flash_complete s) = bootup_code s"
  "acks (flash_complete s) = acks s"
  by (simp_all add: flash_complete_def)

text \<open>Handlers other than write-block leave the page tracking and the flash trace alone
  as long as no page is pending.\<close>

lemma dispatch_keeps_idle:
  assumes "\<not> is_write_block r" and "dispatch cfg r s = Inr s'"
    and "page_pending s = 0"
  shows "page_pending s' = 0 \<and> last_page_address s' = last_page_address s
     \<and> flash_writes s' = flash_writes s"
proof (cases r)
  case (Connect d)
  with assms show ?thesis by (auto simp: command_connect_def Let_def)
next
  case (ReqBlock d)
  with assms show ?thesis
    by (auto simp: command_read_block_def Let_def split: list.splits)
next
  case (RxBlock d)
  with assms show ?thesis by simp
next
  case (RxEof d)
  with assms show ?thesis
    by (auto simp: command_eof_def Let_def split: if_splits)
next
  case (Complete d)
  with assms show ?thesis by (auto simp: command_complete_def Let_def)
qed

lemma session_keeps_idle:
  assumes "\<forall>r \<in> set rs. \<not> is_write_block r" and "run_session cfg rs s = Inr s'"
    and "page_pending s = 0"
  shows "page_pending s' = 0 \<and> last_page_address s' = last_page_address s
     \<and> flash_writes s' = flash_writes s"
  using assms
proof (induction rs arbitrary: s)
  case Nil
  then show ?case by simp
next
  case (Cons r rs)
  from Cons.prems(2) obtain t where t: "dispatch cfg r s = Inr t"
    and rest: "run_session cfg rs t = Inr s'"
    by (auto split: sum.splits)
  from Cons.prems(1) have nr: "\<not> is_write_block r" by simp
  from dispatch_keeps_idle [OF nr t Cons.prems(3)]
  have k: "page_pending t = 0" "last_page_address t = last_page_address s"
    "flash_writes t = flash_writes s"
    by simp_all
  from Cons.prems(1) have "\<forall>r \<in> set rs. \<not> is_write_block r" by simp
  from Cons.IH [OF this rest k(1)] k show ?case by simp
qed

text \<open>
  C10: no handler looks at the session state. Whatever the state, connect and complete are
  acknowledged, read-block is acknowledged for every frame that carries an address,
  end-of-file is acknowledged, and write-block is acknowledged for every frame that passes
  its two checks and fits the buffer. In particular, after a session from bootloader entry
  with no write-block in it, end-of-file commits no page, calls the finalize hook once more,
  and reports the page count computed from \<open>last_page_address = 0\<close>.
\<close>

theorem handlers_accept_in_any_state:
  "is_ack (last (acks (command_connect cfg d s)))
   \<and> is_ack (last (acks (command_complete cfg d s)))
   \<and> (d \<noteq> [] \<longrightarrow> (\<exists>s'. command_read_block cfg d s = Inr s' \<and> is_ack (last (acks s'))))
   \<and> (flash_page_size cfg \<noteq> 0 \<longrightarrow>
        (\<exists>s'. command_eof cfg d s = Inr s' \<and> is_ack (last (acks s'))))
   \<and> (write_block_accepts cfg d \<and> flash_page_size cfg \<noteq> 0
        \<and> unat (page_pos cfg (hd d)) + BLOCK_SIZE cfg \<le> MAX_FLASH_PAGE_SIZE cfg \<longrightarrow>
        (\<exists>s'. command_write_block cfg d s = Inr s' \<and> is_ack (last (acks s'))))
   \<and> (canboot_main cfg button (init_state cfg mem code) = Some (Inr (EnterBootloader, s0))
        \<and> (\<forall>r \<in> set rs. \<not> is_write_block r)
        \<and> run_session cfg rs s0 = Inr s
        \<and> flash_page_size cfg \<noteq> 0 \<longrightarrow>
        (\<exists>s'. command_eof cfg d s = Inr s'
           \<and> flash_writes s' = []
           \<and> flash_completes s' = Suc (flash_completes s)
           \<and> last (acks s') =
               Ack CMD_RX_EOF [(0 - APPLICATION_START cfg) div flash_page_size cfg + 1] []))"
proof (intro conjI impI)
  show "is_ack (last (acks (command_connect cfg d s)))"
    by (simp add: command_connect_def Let_def)
  show "is_ack (last (acks (command_complete cfg d s)))"
    by (simp add: command_complete_def Let_def)
next
  assume "d \<noteq> []"
  then show "\<exists>s'. command_read_block cfg d s = Inr s' \<and> is_ack (last (acks s'))"
    by (cases d) (simp_all add: command_read_block_def Let_def)
next
  assume "flash_page_size cfg \<noteq> 0"
  then show "\<exists>s'. command_eof cfg d s = Inr s' \<and> is_ack (last (acks s'))"
    by (simp add: eof_result)
next
  assume "write_block_accepts cfg d \<and> flash_page_size cfg \<noteq> 0
        \<and> unat (page_pos cfg (hd d)) + BLOCK_SIZE cfg \<le> MAX_FLASH_PAGE_SIZE cfg"
  then show "\<exists>s'. command_write_block cfg d s = Inr s' \<and> is_ack (last (acks s'))"
    by (simp add: write_block_accepted)
next
  assume h: "canboot_main cfg button (init_state cfg mem code)
          = Some (Inr (EnterBootloader, s0))
        \<and> (\<forall>r \<in> set rs. \<not> is_write_block r)
        \<and> run_session cfg rs s0 = Inr s
        \<and> flash_page_size cfg \<noteq> 0"
  then have boot: "canboot_main cfg button (init_state cfg mem code)
          = Some (Inr (EnterBootloader, s0))"
    and nw: "\<forall>r \<in> set rs. \<not> is_write_block r"
    and run: "run_session cfg rs s0 = Inr s"
    and p0: "flash_page_size cfg \<noteq> 0"
    by simp_all
  from entry_state [OF boot]
  have i: "page_pending s0 = 0" "last_page_address s0 = 0" "flash_writes s0 = []"
    by simp_all
  from session_keeps_idle [OF nw run i(1)] i
  have k: "page_pending s = 0" "last_page_address s = 0" "flash_writes s = []"
    by simp_all
  show "\<exists>s'. command_eof cfg d s = Inr s'
           \<and> flash_writes s' = []
           \<and> flash_completes s' = Suc (flash_completes s)
           \<and> last (acks s') =
               Ack CMD_RX_EOF [(0 - APPLICATION_START cfg) div flash_page_size cfg + 1] []"
    using p0 k by (simp add: eof_idle)
qed


theorem handlers_accept_in_any_state_witness:
  "is_ack (last (acks (command_connect scenario_config [0x8000, 0x0399C0DE] requested_entry)))
   \<and> is_ack (last (acks (command_complete scenario_config [0x8000, 0x0399C0DE] requested_entry)))
   \<and> [0x8000, 0x0399C0DE :: u32] \<noteq> []
   \<and> (\<exists>s'. command_read_block scenario_config [0x8000, 0x0399C0DE] requested_entry = Inr s'
         \<and> is_ack (last (acks s')))
   \<and> flash_page_size scenario_config \<noteq> 0
   \<and> (\<exists>s'. command_eof scenario_config [0x8000, 0x0399C0DE] requested_entry = Inr s'
         \<and> is_ack (last (acks s')))
   \<and> write_block_accepts scenario_config (scenario_frame 0x8000 1)
   \<and> unat (page_pos scenario_config (hd (scenario_frame 0x8000 1))) + BLOCK_SIZE scenario_config
         \<le> MAX_FLASH_PAGE_SIZE scenario_config
   \<and> (\<exists>s'. command_write_block scenario_config (scenario_frame 0x8000 1) requested_entry = Inr s'
         \<and> is_ack (last (acks s')))
   \<and> canboot_main scenario_config False (init_state scenario_config erased_flash REQUEST_SIG)
       = Some (Inr (EnterBootloader, requested_entry))
   \<and> list_all (\<lambda>r. \<not> is_write_block r) [Connect [], Complete []]
   \<and> run_session scenario_config [Connect [], Complete []] requested_entry
      = Inr (command_complete scenario_config []
               (command_connect scenario_config [] requested_entry))
   \<and> (\<exists>s'. command_eof scenario_config [0x8000, 0x0399C0DE]
              (command_complete scenario_config []
                (command_connect scenario_config [] requested_entry))
            = Inr s'
         \<and> flash_writes s' = []
         \<and> flash_completes s' = 1
         \<and> last (acks s') = Ack CMD_RX_EOF [0xFFFF81] [])"
proof -
  let ?rs = "[Connect [], Complete []]"
  let ?s = "command_complete scenario_config []
              (command_connect scenario_config [] requested_entry)"
  let ?w = "scenario_frame 0x8000 1"
  have boot: "canboot_main scenario_config False
      (init_state scenario_config erased_flash REQUEST_SIG)
        = Some (Inr (EnterBootloader, requested_entry))"
    by (simp add: canboot_main_def Let_def get_bootup_code_def init_state_def
          requested_entry_def)
  have nw: "\<forall>r \<in> set ?rs. \<not> is_write_block r" by simp
  have run: "run_session scenario_config ?rs requested_entry = Inr ?s"
    by simp
  have p0: "flash_page_size scenario_config \<noteq> 0" by (simp add: scenario_config_def)
  have ne: "[0x8000, 0x0399C0DE :: u32] \<noteq> []" by simp
  have acc: "write_block_accepts scenario_config ?w"
    by (simp add: write_block_accepts_def scenario_config_def scenario_frame_def
          command_get_arg_count_def)
  have fits: "unat (page_pos scenario_config (hd ?w)) + BLOCK_SIZE scenario_config
      \<le> MAX_FLASH_PAGE_SIZE scenario_config"
    by (simp add: page_pos_def scenario_config_def scenario_frame_def)
  have v: "(0 - APPLICATION_START scenario_config) div flash_page_size scenario_config + 1
      = 0xFFFF81"
    by (simp add: scenario_config_def)
  have fc: "flash_completes ?s = 0"
    by (simp add: init_state_def command_complete_def command_connect_def Let_def
          requested_entry_def set_bootup_code_def)
  note t1 = handlers_accept_in_any_state [of scenario_config "[0x8000, 0x0399C0DE]" requested_entry
      False erased_flash 0 requested_entry "[]"]
  note t2 = handlers_accept_in_any_state [of scenario_config "[0x8000, 0x0399C0DE]" ?s
      False erased_flash REQUEST_SIG requested_entry ?rs]
  note t3 = handlers_accept_in_any_state [of scenario_config ?w requested_entry
      False erased_flash 0 requested_entry "[]"]
  from t1 have a1: "is_ack (last (acks (command_connect scenario_config [0x8000, 0x0399C0DE] requested_entry)))"
    by (rule conjunct1)
  from t1 [THEN conjunct2]
  have a2: "is_ack (last (acks (command_complete scenario_config [0x8000, 0x0399C0DE] requested_entry)))"
    by (rule conjunct1)
  from t1 [THEN conjunct2, THEN conjunct2, THEN conjunct1] ne
  have a3: "\<exists>s'. command_read_block scenario_config [0x8000, 0x0399C0DE] requested_entry = Inr s'
         \<and> is_ack (last (acks s'))"
    by (rule mp)
  from t1 [THEN conjunct2, THEN conjunct2, THEN conjunct2, THEN conjunct1] p0
  have a4: "\<exists>s'. command_eof scenario_config [0x8000, 0x0399C0DE] requested_entry = Inr s'
         \<and> is_ack (last (acks s'))"
    by (rule mp)
  from acc p0 fits
  have hw: "write_block_accepts scenario_config ?w \<and> flash_page_size scenario_config \<noteq> 0
      \<and> unat (page_pos scenario_config (hd ?w)) + BLOCK_SIZE scenario_config
          \<le> MAX_FLASH_PAGE_SIZE scenario_config"
    by (intro conjI)
  from t3 [THEN conjunct2, THEN conjunct2, THEN conjunct2, THEN conjunct2, THEN conjunct1] hw
  have a5: "\<exists>s'. command_write_block scenario_config ?w requested_entry = Inr s'
         \<and> is_ack (last (acks s'))"
    by (rule mp)
  from boot nw run p0
  have h: "canboot_main scenario_config False
        (init_state scenario_config erased_flash REQUEST_SIG)
          = Some (Inr (EnterBootloader, requested_entry))
      \<and> (\<forall>r \<in> set ?rs. \<not> is_write_block r)
      \<and> run_session scenario_config ?rs requested_entry = Inr ?s
      \<and> flash_page_size scenario_config \<noteq> 0"
    by (intro conjI)
  from t2 [THEN conjunct2, THEN conjunct2, THEN conjunct2, THEN conjunct2, THEN conjunct2] h
  have "\<exists>s'. command_eof scenario_config [0x8000, 0x0399C0DE] ?s = Inr s'
           \<and> flash_writes s' = []
           \<and> flash_completes s' = Suc (flash_completes ?s)
           \<and> last (acks s') =
               Ack CMD_RX_EOF [(0 - APPLICATION_START scenario_config)
                                 div flash_page_size scenario_config + 1] []"
    by (rule mp)
  then have b: "\<exists>s'. command_eof scenario_config [0x8000, 0x0399C0DE] ?s = Inr s'
         \<and> flash_writes s' = []
         \<and> flash_completes s' = 1
         \<and> last (acks s') = Ack CMD_RX_EOF [0xFFFF81] []"
    unfolding v fc by simp
  have la: "list_all (\<lambda>r. \<not> is_write_block r) ?rs" by simp
  show ?thesis
    by (intro conjI a1 a2 a3 a4 a5 acc fits boot b ne p0 la run)
qed

subsection \<open>The boot decision (C6)\<close>

text \<open>The scan ends with 0 when the block is shorter than 256 bytes and all fill value.\<close>

lemma check_loop_erased:
  assumes "block_size < 256" and "unat i \<le> block_size"
    and "\<forall>k. unat i \<le> k \<and> k < block_size \<longrightarrow> buf ! k = 0xFF"
  shows "check_loop block_size buf i = Some 0"
  using assms
proof (induction "block_size - unat i" arbitrary: i)
  case 0
  then have "\<not> unat i < block_size" by simp
  then show ?case by (subst check_loop.simps) simp
next
  case (Suc n)
  then have lt: "unat i < block_size" by simp
  with Suc.prems(1) have "unat i + 1 < 256" by simp
  then have u: "unat (i + 1) = unat i + 1"
    by (simp add: unat_word_ariths)
  have ff: "buf ! unat i = 0xFF" using Suc.prems(3) lt by simp
  have "check_loop block_size buf (i + 1) = Some 0"
  proof (rule Suc.hyps(1))
    show "n = block_size - unat (i + 1)" using Suc.hyps(2) u by simp
    show "block_size < 256" by (rule Suc.prems(1))
    show "unat (i + 1) \<le> block_size" using lt u by simp
    show "\<forall>k. unat (i + 1) \<le> k \<and> k < block_size \<longrightarrow> buf ! k = 0xFF"
      using Suc.prems(3) u by simp
  qed
  with lt ff show ?case by (subst check_loop.simps) simp
qed

lemma check_loop_found:
  assumes "k < block_size" and "k < 256" and "buf ! k \<noteq> 0xFF" and "unat i \<le> k"
  shows "check_loop block_size buf i = Some 1"
  using assms
proof (induction "k - unat i" arbitrary: i)
  case 0
  then have "unat i = k" by simp
  with 0 show ?case by (subst check_loop.simps) simp
next
  case (Suc n)
  then have lt: "unat i < k" by simp
  with Suc.prems have ib: "unat i < block_size" by simp
  from lt Suc.prems(2) have "unat i + 1 < 256" by simp
  then have u: "unat (i + 1) = unat i + 1"
    by (simp add: unat_word_ariths)
  have "check_loop block_size buf (i + 1) = Some 1"
  proof (rule Suc.hyps(1))
    show "n = k - unat (i + 1)" using Suc.hyps(2) u by simp
    show "unat (i + 1) \<le> k" using lt u by simp
  qed (rule Suc.prems)+
  with ib show ?case by (subst check_loop.simps) simp
qed

text \<open>
  With a block of 256 bytes or more the 8-bit index never reaches the bound: on an erased
  block the scan does not return.
\<close>

lemma check_loop_diverges:
  assumes "256 \<le> block_size" and "\<forall>k < 256. buf ! k = 0xFF"
  shows "check_loop block_size buf i = None"
proof (rule ccontr)
  assume "check_loop block_size buf i \<noteq> None"
  then obtain r where r: "check_loop block_size buf i = Some r" by auto
  have "\<not> (256 \<le> block_size \<and> (\<forall>k < 256. buf ! k = 0xFF))"
  proof (rule check_loop.raw_induct
      [where P = "\<lambda>bs b j y. \<not> (256 \<le> bs \<and> (\<forall>k < 256. b ! k = 0xFF))", OF _ r])
    fix f :: "nat \<Rightarrow> u8 list \<Rightarrow> u8 \<Rightarrow> u8 option" and bs b j y
    assume IH: "\<And>bs b j y. f bs b j = Some y
        \<Longrightarrow> \<not> (256 \<le> bs \<and> (\<forall>k < 256. b ! k = 0xFF))"
      and eq: "(if unat j < bs
                then if b ! unat j \<noteq> 0xFF then Some 1 else f bs b (j + 1)
                else Some 0) = Some y"
    show "\<not> (256 \<le> bs \<and> (\<forall>k < 256. b ! k = 0xFF))"
    proof
      assume a: "256 \<le> bs \<and> (\<forall>k < 256. b ! k = 0xFF)"
      have "unat j < 256" using unsigned_less [of j, where ?'a = nat] by simp
      with a have "unat j < bs" "b ! unat j = 0xFF" by simp_all
      with eq have "f bs b (j + 1) = Some y" by simp
      from IH [OF this] a show False by simp
    qed
  qed
  with assms show False by simp
qed

lemma memcpy_at_front:
  "k < length src \<Longrightarrow> memcpy_at buf 0 src ! k = src ! k"
  by (simp add: memcpy_at_def nth_append)

lemma check_application_code_erased:
  assumes "BLOCK_SIZE cfg < 256" and "BLOCK_SIZE cfg \<le> MAX_FLASH_PAGE_SIZE cfg"
    and "list_all (\<lambda>b. b = 0xFF) (flash_read_block cfg (APPLICATION_START cfg) s)"
  shows "check_application_code cfg s =
     Some (Inr (0, s\<lparr> page_buffer :=
        memcpy_at (page_buffer s) 0 (flash_read_block cfg (APPLICATION_START cfg) s) \<rparr>))"
proof -
  let ?blk = "flash_read_block cfg (APPLICATION_START cfg) s"
  have "\<forall>k. unat (0 :: u8) \<le> k \<and> k < BLOCK_SIZE cfg
      \<longrightarrow> memcpy_at (page_buffer s) 0 ?blk ! k = 0xFF"
  proof (intro allI impI)
    fix k assume "unat (0 :: u8) \<le> k \<and> k < BLOCK_SIZE cfg"
    then have k: "k < length ?blk" by simp
    with assms(3) have "?blk ! k = 0xFF" by (simp add: list_all_length)
    with k show "memcpy_at (page_buffer s) 0 ?blk ! k = 0xFF"
      by (simp add: memcpy_at_front)
  qed
  with assms(1)
  have "check_loop (BLOCK_SIZE cfg) (memcpy_at (page_buffer s) 0 ?blk) 0 = Some 0"
    by (intro check_loop_erased) simp_all
  with assms(2) show ?thesis
    by (simp add: check_application_code_def Let_def)
qed

text \<open>
  C6: at start-up, if the persisted signal equals the request constant, update mode is
  entered and the signal reads 0 afterwards; and if every byte of the application's first
  block is \<open>0xFF\<close>, update mode is entered whatever the signal and the button are. (The
  scan uses an 8-bit index and the page buffer, so the block has to be shorter than 256
  bytes and to fit the buffer, as the 64-byte block of the specification's scenarios does.)
\<close>

theorem boot_decision_enters_update_mode:
  "(get_bootup_code s = REQUEST_SIG \<longrightarrow>
      (\<exists>s'. canboot_main cfg button s = Some (Inr (EnterBootloader, s'))
         \<and> get_bootup_code s' = 0))
   \<and> (BLOCK_SIZE cfg < 256 \<and> BLOCK_SIZE cfg \<le> MAX_FLASH_PAGE_SIZE cfg
       \<and> list_all (\<lambda>b. b = 0xFF) (flash_read_block cfg (APPLICATION_START cfg) s) \<longrightarrow>
      (\<exists>s'. canboot_main cfg button s = Some (Inr (EnterBootloader, s'))
         \<and> get_bootup_code s' = 0))"
proof (intro conjI impI)
  assume "get_bootup_code s = REQUEST_SIG"
  then show "\<exists>s'. canboot_main cfg button s = Some (Inr (EnterBootloader, s'))
         \<and> get_bootup_code s' = 0"
    by (simp add: canboot_main_def Let_def get_bootup_code_def set_bootup_code_def)
next
  assume h: "BLOCK_SIZE cfg < 256 \<and> BLOCK_SIZE cfg \<le> MAX_FLASH_PAGE_SIZE cfg
       \<and> list_all (\<lambda>b. b = 0xFF) (flash_read_block cfg (APPLICATION_START cfg) s)"
  then have c: "check_application_code cfg s =
     Some (Inr (0, s\<lparr> page_buffer :=
        memcpy_at (page_buffer s) 0 (flash_read_block cfg (APPLICATION_START cfg) s) \<rparr>))"
    by (simp add: check_application_code_erased)
  show "\<exists>s'. canboot_main cfg button s = Some (Inr (EnterBootloader, s'))
         \<and> get_bootup_code s' = 0"
    by (simp add: canboot_main_def Let_def c get_bootup_code_def set_bootup_code_def)
qed

theorem boot_decision_enters_update_mode_witness:
  "get_bootup_code (init_state scenario_config erased_flash REQUEST_SIG) = REQUEST_SIG
   \<and> (\<exists>s'. canboot_main scenario_config False
              (init_state scenario_config erased_flash REQUEST_SIG)
            = Some (Inr (EnterBootloader, s'))
         \<and> get_bootup_code s' = 0)
   \<and> BLOCK_SIZE scenario_config < 256
   \<and> BLOCK_SIZE scenario_config \<le> MAX_FLASH_PAGE_SIZE scenario_config
   \<and> list_all (\<lambda>b. b = 0xFF)
        (flash_read_block scenario_config (APPLICATION_START scenario_config)
           (init_state scenario_config erased_flash 0x1234))
   \<and> (\<exists>s'. canboot_main scenario_config False
              (init_state scenario_config erased_flash 0x1234)
            = Some (Inr (EnterBootloader, s'))
         \<and> get_bootup_code s' = 0)"
proof -
  let ?s1 = "init_state scenario_config erased_flash REQUEST_SIG"
  let ?s2 = "init_state scenario_config erased_flash 0x1234"
  have h1: "get_bootup_code ?s1 = REQUEST_SIG"
    by (simp add: get_bootup_code_def init_state_def)
  have h2: "BLOCK_SIZE scenario_config < 256"
    "BLOCK_SIZE scenario_config \<le> MAX_FLASH_PAGE_SIZE scenario_config"
    by (simp_all add: scenario_config_def)
  have h3: "list_all (\<lambda>b. b = 0xFF)
        (flash_read_block scenario_config (APPLICATION_START scenario_config) ?s2)"
    by (simp add: flash_read_block_def init_state_def erased_flash_def list_all_iff)
  from boot_decision_enters_update_mode [of ?s1 scenario_config False, THEN conjunct1] h1
  have c1: "\<exists>s'. canboot_main scenario_config False ?s1 = Some (Inr (EnterBootloader, s'))
         \<and> get_bootup_code s' = 0"
    by (rule mp)
  from h2 h3 have h: "BLOCK_SIZE scenario_config < 256
       \<and> BLOCK_SIZE scenario_config \<le> MAX_FLASH_PAGE_SIZE scenario_config
       \<and> list_all (\<lambda>b. b = 0xFF)
            (flash_read_block scenario_config (APPLICATION_START scenario_config) ?s2)"
    by (intro conjI)
  from boot_decision_enters_update_mode [of ?s2 scenario_config False, THEN conjunct2] h
  have c2: "\<exists>s'. canboot_main scenario_config False ?s2 = Some (Inr (EnterBootloader, s'))
         \<and> get_bootup_code s' = 0"
    by (rule mp)
  show ?thesis
    by (intro conjI h1 h2 h3 c1 c2)
qed

text \<open>
  With an application present, no request signal and no button, the decision is to run the
  application; the double-reset window leaves the signal at 0.
\<close>

lemma boot_decision_runs_application:
  assumes "get_bootup_code s \<noteq> REQUEST_SIG"
    and "BLOCK_SIZE cfg \<le> MAX_FLASH_PAGE_SIZE cfg"
    and "k < BLOCK_SIZE cfg" and "k < 256"
    and "flash_read_block cfg (APPLICATION_START cfg) s ! k \<noteq> 0xFF"
    and "\<not> check_button_pressed cfg button"
  shows "\<exists>s'. canboot_main cfg button s = Some (Inr (JumpToApplication, s'))
     \<and> (ENABLE_DOUBLE_RESET cfg \<longrightarrow> get_bootup_code s' = 0)"
proof -
  let ?blk = "flash_read_block cfg (APPLICATION_START cfg) s"
  have "memcpy_at (page_buffer s) 0 ?blk ! k = ?blk ! k"
    using assms(3) by (simp add: memcpy_at_front)
  with assms(5) have "memcpy_at (page_buffer s) 0 ?blk ! k \<noteq> 0xFF" by simp
  with assms(3,4)
  have "check_loop (BLOCK_SIZE cfg) (memcpy_at (page_buffer s) 0 ?blk) 0 = Some 1"
    by (intro check_loop_found [of k]) simp_all
  with assms(2) have "check_application_code cfg s =
      Some (Inr (1, s\<lparr> page_buffer := memcpy_at (page_buffer s) 0 ?blk \<rparr>))"
    by (simp add: check_application_code_def Let_def)
  with assms(1,6) show ?thesis
    by (simp add: canboot_main_def Let_def check_double_reset_def set_bootup_code_def
          get_bootup_code_def)
qed

subsection \<open>The page buffer at bootloader entry (C9)\<close>

text \<open>
  C9: the missing-application check reads the application's first block into the page
  buffer. At bootloader entry the buffer therefore holds its zero initialisation (when the
  request signal short-circuits the check) or the application's first block followed by
  zeros; it is not filled with \<open>0xFF\<close>. A first page that is only partly written (here:
  its first block) is flushed by end-of-file with those bytes as padding, not with the fill
  value.
\<close>

theorem page_buffer_at_bootloader_entry:
  "(check_application_code cfg s = Some (Inr (r, s1)) \<longrightarrow>
      page_buffer s1 = flash_read_block cfg (APPLICATION_START cfg) s
                       @ drop (BLOCK_SIZE cfg) (page_buffer s))
   \<and> (canboot_main cfg button (init_state cfg mem code) = Some (Inr (EnterBootloader, s0)) \<longrightarrow>
      page_buffer s0 =
         (if code = REQUEST_SIG then replicate (MAX_FLASH_PAGE_SIZE cfg) 0
          else flash_read_block cfg (APPLICATION_START cfg) (init_state cfg mem code)
               @ replicate (MAX_FLASH_PAGE_SIZE cfg - BLOCK_SIZE cfg) 0))
   \<and> (canboot_main cfg button (init_state cfg mem code) = Some (Inr (EnterBootloader, s0))
       \<and> write_block_accepts cfg d \<and> 4 dvd BLOCK_SIZE cfg \<and> page_pos cfg (hd d) = 0
       \<and> BLOCK_SIZE cfg < unat (flash_page_size cfg)
       \<and> unat (flash_page_size cfg) \<le> MAX_FLASH_PAGE_SIZE cfg \<longrightarrow>
      (\<exists>s2. run_session cfg [RxBlock d, RxEof e] s0 = Inr s2
         \<and> map snd (flash_writes s2)
             = [block_bytes cfg d @ replicate (unat (flash_page_size cfg) - BLOCK_SIZE cfg) 0]
         \<and> map snd (flash_writes s2)
             \<noteq> [block_bytes cfg d
                  @ replicate (unat (flash_page_size cfg) - BLOCK_SIZE cfg) 0xFF]))"
proof (intro conjI impI)
  assume "check_application_code cfg s = Some (Inr (r, s1))"
  from check_application_code_buffer [OF this]
  show "page_buffer s1 = flash_read_block cfg (APPLICATION_START cfg) s
                       @ drop (BLOCK_SIZE cfg) (page_buffer s)"
    by simp
next
  assume "canboot_main cfg button (init_state cfg mem code) = Some (Inr (EnterBootloader, s0))"
  from entry_state [OF this]
  show "page_buffer s0 =
         (if code = REQUEST_SIG then replicate (MAX_FLASH_PAGE_SIZE cfg) 0
          else flash_read_block cfg (APPLICATION_START cfg) (init_state cfg mem code)
               @ replicate (MAX_FLASH_PAGE_SIZE cfg - BLOCK_SIZE cfg) 0)"
    by simp
next
  assume h: "canboot_main cfg button (init_state cfg mem code) = Some (Inr (EnterBootloader, s0))
       \<and> write_block_accepts cfg d \<and> 4 dvd BLOCK_SIZE cfg \<and> page_pos cfg (hd d) = 0
       \<and> BLOCK_SIZE cfg < unat (flash_page_size cfg)
       \<and> unat (flash_page_size cfg) \<le> MAX_FLASH_PAGE_SIZE cfg"
  then have boot: "canboot_main cfg button (init_state cfg mem code)
        = Some (Inr (EnterBootloader, s0))"
    and acc: "write_block_accepts cfg d" and al: "4 dvd BLOCK_SIZE cfg"
    and pos: "page_pos cfg (hd d) = 0"
    and part: "BLOCK_SIZE cfg < unat (flash_page_size cfg)"
    and cap: "unat (flash_page_size cfg) \<le> MAX_FLASH_PAGE_SIZE cfg"
    by simp_all
  let ?P = "unat (flash_page_size cfg)"
  let ?s1 = "command_respond_ack CMD_RX_BLOCK [hd d] [] (stage_block cfg d s0)"
  from part have p0: "flash_page_size cfg \<noteq> 0" by auto
  from acc al have bl: "length (block_bytes cfg d) = BLOCK_SIZE cfg"
    by (simp add: write_block_accepts_def length_block_bytes)
  from part cap have bm: "BLOCK_SIZE cfg \<le> MAX_FLASH_PAGE_SIZE cfg" by simp
  have w: "command_write_block cfg d s0 = Inr ?s1"
    using acc part cap pos by (intro write_block_pending) simp_all
  have buf: "page_buffer ?s1
      = block_bytes cfg d @ replicate (MAX_FLASH_PAGE_SIZE cfg - BLOCK_SIZE cfg) 0"
    using pos bl entry_buffer_tail [OF boot bm] by (simp add: memcpy_at_def)
  have tk: "take ?P (page_buffer ?s1) = block_bytes cfg d @ replicate (?P - BLOCK_SIZE cfg) 0"
    using buf bl part cap by (simp add: min_def)
  from entry_state [OF boot] have fw: "flash_writes ?s1 = []" by simp
  have ne: "replicate (?P - BLOCK_SIZE cfg) (0 :: u8) \<noteq> replicate (?P - BLOCK_SIZE cfg) 0xFF"
  proof
    assume "replicate (?P - BLOCK_SIZE cfg) (0 :: u8) = replicate (?P - BLOCK_SIZE cfg) 0xFF"
    then have "?P - BLOCK_SIZE cfg = 0 \<or> (0 :: u8) = 0xFF"
      by (simp add: replicate_eq_replicate)
    with part show False by simp
  qed
  obtain s2 where e: "command_eof cfg e ?s1 = Inr s2"
    and fw2: "flash_writes s2
        = [(last_page_address ?s1 + flash_page_size cfg, take ?P (page_buffer ?s1))]"
    using p0 fw by (simp add: eof_result)
  have "run_session cfg [RxBlock d, RxEof e] s0 = Inr s2"
    by (simp add: w e)
  moreover have "map snd (flash_writes s2)
      = [block_bytes cfg d @ replicate (?P - BLOCK_SIZE cfg) 0]"
    using tk by (simp add: fw2)
  moreover have "map snd (flash_writes s2)
      \<noteq> [block_bytes cfg d @ replicate (?P - BLOCK_SIZE cfg) 0xFF]"
    using ne tk by (simp add: fw2)
  ultimately show "\<exists>s2. run_session cfg [RxBlock d, RxEof e] s0 = Inr s2
         \<and> map snd (flash_writes s2)
             = [block_bytes cfg d @ replicate (unat (flash_page_size cfg) - BLOCK_SIZE cfg) 0]
         \<and> map snd (flash_writes s2)
             \<noteq> [block_bytes cfg d
                  @ replicate (unat (flash_page_size cfg) - BLOCK_SIZE cfg) 0xFF]"
    by (intro exI [of _ s2] conjI)
qed


theorem page_buffer_at_bootloader_entry_witness:
  "check_application_code scenario_config (init_state scenario_config erased_flash 0)
     = Some (Inr (0, (init_state scenario_config erased_flash 0)
          \<lparr> page_buffer := memcpy_at (page_buffer (init_state scenario_config erased_flash 0)) 0
              (flash_read_block scenario_config (APPLICATION_START scenario_config)
                 (init_state scenario_config erased_flash 0)) \<rparr>))
   \<and> page_buffer ((init_state scenario_config erased_flash 0)
          \<lparr> page_buffer := memcpy_at (page_buffer (init_state scenario_config erased_flash 0)) 0
              (flash_read_block scenario_config (APPLICATION_START scenario_config)
                 (init_state scenario_config erased_flash 0)) \<rparr>)
       = flash_read_block scenario_config (APPLICATION_START scenario_config)
           (init_state scenario_config erased_flash 0)
         @ drop (BLOCK_SIZE scenario_config)
             (page_buffer (init_state scenario_config erased_flash 0))
   \<and> canboot_main scenario_config False (init_state scenario_config erased_flash REQUEST_SIG)
       = Some (Inr (EnterBootloader, requested_entry))
   \<and> page_buffer requested_entry =
         (if REQUEST_SIG = REQUEST_SIG
          then replicate (MAX_FLASH_PAGE_SIZE scenario_config) 0
          else flash_read_block scenario_config (APPLICATION_START scenario_config)
                 (init_state scenario_config erased_flash REQUEST_SIG)
               @ replicate (MAX_FLASH_PAGE_SIZE scenario_config - BLOCK_SIZE scenario_config) 0)
   \<and> write_block_accepts scenario_config (scenario_frame 0x8000 0x44332211)
   \<and> 4 dvd BLOCK_SIZE scenario_config
   \<and> page_pos scenario_config (hd (scenario_frame 0x8000 0x44332211)) = 0
   \<and> BLOCK_SIZE scenario_config < unat (flash_page_size scenario_config)
   \<and> unat (flash_page_size scenario_config) \<le> MAX_FLASH_PAGE_SIZE scenario_config
   \<and> (\<exists>s2. run_session scenario_config [RxBlock (scenario_frame 0x8000 0x44332211), RxEof []]
               requested_entry = Inr s2
         \<and> map snd (flash_writes s2)
             = [block_bytes scenario_config (scenario_frame 0x8000 0x44332211)
                @ replicate (unat (flash_page_size scenario_config) - BLOCK_SIZE scenario_config) 0]
         \<and> map snd (flash_writes s2)
             \<noteq> [block_bytes scenario_config (scenario_frame 0x8000 0x44332211)
                  @ replicate (unat (flash_page_size scenario_config) - BLOCK_SIZE scenario_config)
                      0xFF])"
proof -
  let ?i0 = "init_state scenario_config erased_flash 0"
  let ?blk = "flash_read_block scenario_config (APPLICATION_START scenario_config) ?i0"
  let ?s1 = "?i0\<lparr> page_buffer := memcpy_at (page_buffer ?i0) 0 ?blk \<rparr>"
  let ?d = "scenario_frame 0x8000 0x44332211"
  have ff: "list_all (\<lambda>b. b = 0xFF) ?blk"
    by (simp add: flash_read_block_def init_state_def erased_flash_def list_all_iff)
  have h1: "check_application_code scenario_config ?i0 = Some (Inr (0, ?s1))"
    using ff by (intro check_application_code_erased) (simp_all add: scenario_config_def)
  have h2: "canboot_main scenario_config False
      (init_state scenario_config erased_flash REQUEST_SIG)
        = Some (Inr (EnterBootloader, requested_entry))"
    by (simp add: canboot_main_def Let_def get_bootup_code_def init_state_def
          requested_entry_def)
  have h3: "write_block_accepts scenario_config ?d"
    by (simp add: write_block_accepts_def scenario_config_def scenario_frame_def
          command_get_arg_count_def)
  have h4: "4 dvd BLOCK_SIZE scenario_config" by (simp add: scenario_config_def)
  have h5: "page_pos scenario_config (hd ?d) = 0"
    by (simp add: page_pos_def scenario_config_def scenario_frame_def)
  have h6: "BLOCK_SIZE scenario_config < unat (flash_page_size scenario_config)"
    by (simp add: scenario_config_def)
  have h7: "unat (flash_page_size scenario_config) \<le> MAX_FLASH_PAGE_SIZE scenario_config"
    by (simp add: scenario_config_def)
  note t = page_buffer_at_bootloader_entry [of scenario_config ?i0 0 ?s1 False erased_flash
      REQUEST_SIG requested_entry ?d "[]"]
  from t [THEN conjunct1] h1
  have c1: "page_buffer ?s1 = ?blk @ drop (BLOCK_SIZE scenario_config) (page_buffer ?i0)"
    by (rule mp)
  from t [THEN conjunct2, THEN conjunct1] h2
  have c2: "page_buffer requested_entry =
         (if REQUEST_SIG = REQUEST_SIG
          then replicate (MAX_FLASH_PAGE_SIZE scenario_config) 0
          else flash_read_block scenario_config (APPLICATION_START scenario_config)
                 (init_state scenario_config erased_flash REQUEST_SIG)
               @ replicate (MAX_FLASH_PAGE_SIZE scenario_config - BLOCK_SIZE scenario_config) 0)"
    by (rule mp)
  from h2 h3 h4 h5 h6 h7
  have h: "canboot_main scenario_config False
      (init_state scenario_config erased_flash REQUEST_SIG)
        = Some (Inr (EnterBootloader, requested_entry))
       \<and> write_block_accepts scenario_config ?d \<and> 4 dvd BLOCK_SIZE scenario_config
       \<and> page_pos scenario_config (hd ?d) = 0
       \<and> BLOCK_SIZE scenario_config < unat (flash_page_size scenario_config)
       \<and> unat (flash_page_size scenario_config) \<le> MAX_FLASH_PAGE_SIZE scenario_config"
    by (intro conjI)
  from t [THEN conjunct2, THEN conjunct2] h
  have c3: "\<exists>s2. run_session scenario_config [RxBlock ?d, RxEof []] requested_entry = Inr s2
         \<and> map snd (flash_writes s2)
             = [block_bytes scenario_config ?d
                @ replicate (unat (flash_page_size scenario_config) - BLOCK_SIZE scenario_config) 0]
         \<and> map snd (flash_writes s2)
             \<noteq> [block_bytes scenario_config ?d
                  @ replicate (unat (flash_page_size scenario_config) - BLOCK_SIZE scenario_config)
                      0xFF]"
    by (rule mp)
  show ?thesis
    by (intro conjI h1 c1 h2 c2 h3 h4 h5 h6 h7 c3)
qed

subsection \<open>Reading back a committed block (C8)\<close>

lemma flash_mem_write_page:
  "flash_mem (write_page cfg base s) a =
     (if unat (a - base) < length (take (unat (flash_page_size cfg)) (page_buffer s))
      then take (unat (flash_page_size cfg)) (page_buffer s) ! unat (a - base)
      else flash_mem s a)"
  by (simp add: write_page_def flash_write_page_def Let_def)

text \<open>
  After the page at \<open>a - pos\<close> has been programmed from a buffer that holds \<open>src\<close> at
  offset \<open>pos\<close>, the block at \<open>a\<close> reads as \<open>src\<close>.
\<close>

lemma read_block_after_commit:
  fixes a pos :: u32
  assumes fit: "unat pos + BLOCK_SIZE cfg \<le> unat (flash_page_size cfg)"
    and len: "unat (flash_page_size cfg) \<le> length buf"
    and src: "length src = BLOCK_SIZE cfg"
    and at: "\<forall>i < BLOCK_SIZE cfg. buf ! (unat pos + i) = src ! i"
    and s: "page_buffer s = buf"
  shows "flash_read_block cfg a (write_page cfg (a - pos) s) = src"
proof (rule nth_equalityI)
  show "length (flash_read_block cfg a (write_page cfg (a - pos) s)) = length src"
    by (simp add: flash_read_block_def src)
next
  fix i assume "i < length (flash_read_block cfg a (write_page cfg (a - pos) s))"
  then have i: "i < BLOCK_SIZE cfg" by (simp add: flash_read_block_def)
  have p32: "unat (flash_page_size cfg) < 2 ^ 32"
    using unsigned_less [of "flash_page_size cfg", where ?'a = nat] by simp
  with fit i have small: "unat pos + i < 2 ^ 32" by simp
  have "unat (pos + of_nat i) = unat pos + i"
    using small by (simp add: unat_word_ariths unat_of_nat)
  then have off: "unat (of_nat i + pos) = unat pos + i"
    by (simp add: add.commute)
  have inpage: "unat pos + i < unat (flash_page_size cfg)" using fit i by simp
  have "flash_mem (write_page cfg (a - pos) s) (a + of_nat i) = buf ! (unat pos + i)"
    using inpage len s by (simp add: flash_mem_write_page off)
  with at i show "flash_read_block cfg a (write_page cfg (a - pos) s) ! i = src ! i"
    by (simp add: flash_read_block_def)
qed

lemma read_block_result:
  "command_read_block cfg (a # rest) s =
     Inr (command_respond_ack CMD_REQ_BLOCK [a] (flash_read_block cfg a s)
            (s\<lparr> is_in_transfer := 1 \<rparr>))"
  by (simp add: command_read_block_def Let_def flash_read_block_def)

lemma flash_read_block_cong:
  "flash_mem s = flash_mem t \<Longrightarrow> flash_read_block cfg a s = flash_read_block cfg a t"
  by (simp add: flash_read_block_def)

lemma memcpy_at_keeps:
  assumes "p2 + length src \<le> length buf"
    and "p2 + length src \<le> pa \<or> pa + n \<le> p2"
  shows "take n (drop pa (memcpy_at buf p2 src)) = take n (drop pa buf)"
proof (rule nth_equalityI)
  have l: "length (memcpy_at buf p2 src) = length buf"
    using assms(1) by (rule length_memcpy_at)
  show "length (take n (drop pa (memcpy_at buf p2 src))) = length (take n (drop pa buf))"
    by (simp add: l)
next
  fix i assume "i < length (take n (drop pa (memcpy_at buf p2 src)))"
  then have i: "i < n" "pa + i < length buf"
    using length_memcpy_at [OF assms(1)] by auto
  have "memcpy_at buf p2 src ! (pa + i) = buf ! (pa + i)"
  proof (cases "pa + n \<le> p2")
    case True
    with i have "pa + i < p2" by simp
    then show ?thesis using assms(1) by (simp add: memcpy_at_def nth_append)
  next
    case False
    with assms(2) have ge: "p2 + length src \<le> pa" by simp
    then have "\<not> pa + i < p2" "\<not> pa + i - p2 < length src" by simp_all
    moreover have "p2 + length src + (pa + i - p2 - length src) = pa + i" using ge by simp
    ultimately show ?thesis using assms(1) ge i
      by (simp add: memcpy_at_def nth_append min_def)
  qed
  then show "take n (drop pa (memcpy_at buf p2 src)) ! i = take n (drop pa buf) ! i"
    using i length_memcpy_at [OF assms(1)] by simp
qed

lemma memcpy_at_holds:
  assumes "pos + length src \<le> length buf"
  shows "take (length src) (drop pos (memcpy_at buf pos src)) = src"
  using assms by (simp add: memcpy_at_def)


lemma holds_block_commit:
  assumes h: "holds_block cfg a bs t"
    and fit: "unat (page_pos cfg a) + BLOCK_SIZE cfg \<le> unat (flash_page_size cfg)"
    and cap: "unat (flash_page_size cfg) \<le> MAX_FLASH_PAGE_SIZE cfg"
  shows "flash_read_block cfg a (write_page cfg (a - page_pos cfg a) t) = bs"
proof -
  let ?pos = "unat (page_pos cfg a)"
  from h have len: "length (page_buffer t) = MAX_FLASH_PAGE_SIZE cfg"
    and bs: "take (BLOCK_SIZE cfg) (drop ?pos (page_buffer t)) = bs"
    by (simp_all add: holds_block_def)
  from fit cap len have inb: "?pos + BLOCK_SIZE cfg \<le> length (page_buffer t)" by simp
  have l: "length bs = BLOCK_SIZE cfg" using inb bs [symmetric] by simp
  have at: "\<forall>i < BLOCK_SIZE cfg. page_buffer t ! (?pos + i) = bs ! i"
    using inb bs [symmetric] by simp
  from cap len have "unat (flash_page_size cfg) \<le> length (page_buffer t)" by simp
  from fit this l at show ?thesis
    by (rule read_block_after_commit) simp
qed

lemma staged_holds_block:
  assumes acc: "write_block_accepts cfg d" and al: "4 dvd BLOCK_SIZE cfg"
    and fit: "unat (page_pos cfg (hd d)) + BLOCK_SIZE cfg \<le> unat (flash_page_size cfg)"
    and cap: "unat (flash_page_size cfg) \<le> MAX_FLASH_PAGE_SIZE cfg"
    and len: "length (page_buffer s) = MAX_FLASH_PAGE_SIZE cfg"
  shows "holds_block cfg (hd d) (block_bytes cfg d) (stage_block cfg d s)"
proof -
  from acc al have bl: "length (block_bytes cfg d) = BLOCK_SIZE cfg"
    by (simp add: write_block_accepts_def length_block_bytes)
  with fit cap len
  have inb: "unat (page_pos cfg (hd d)) + length (block_bytes cfg d) \<le> length (page_buffer s)"
    by simp
  from memcpy_at_holds [OF inb] length_memcpy_at [OF inb] bl len
  show ?thesis by (simp add: holds_block_def)
qed

lemma beside_keeps:
  assumes b: "beside cfg a d" and al: "4 dvd BLOCK_SIZE cfg"
    and cap: "unat (flash_page_size cfg) \<le> MAX_FLASH_PAGE_SIZE cfg"
    and h: "holds_block cfg a bs s"
  shows "\<exists>s'. command_write_block cfg d s = Inr s' \<and> holds_block cfg a bs s'
     \<and> page_pending s' = 1 \<and> last_page_address s' = last_page_address s"
proof -
  let ?s' = "command_respond_ack CMD_RX_BLOCK [hd d] [] (stage_block cfg d s)"
  from b have acc: "write_block_accepts cfg d"
    and part: "unat (page_pos cfg (hd d)) + BLOCK_SIZE cfg < unat (flash_page_size cfg)"
    and clear: "unat (page_pos cfg (hd d)) + BLOCK_SIZE cfg \<le> unat (page_pos cfg a)
        \<or> unat (page_pos cfg a) + BLOCK_SIZE cfg \<le> unat (page_pos cfg (hd d))"
    by (simp_all add: beside_def)
  from h have len: "length (page_buffer s) = MAX_FLASH_PAGE_SIZE cfg"
    and bs: "take (BLOCK_SIZE cfg) (drop (unat (page_pos cfg a)) (page_buffer s)) = bs"
    by (simp_all add: holds_block_def)
  from acc al have bl: "length (block_bytes cfg d) = BLOCK_SIZE cfg"
    by (simp add: write_block_accepts_def length_block_bytes)
  from part cap len bl
  have inb: "unat (page_pos cfg (hd d)) + length (block_bytes cfg d) \<le> length (page_buffer s)"
    by simp
  from clear bl
  have clear': "unat (page_pos cfg (hd d)) + length (block_bytes cfg d) \<le> unat (page_pos cfg a)
      \<or> unat (page_pos cfg a) + BLOCK_SIZE cfg \<le> unat (page_pos cfg (hd d))"
    by simp
  have w: "command_write_block cfg d s = Inr ?s'"
    using acc part cap by (rule write_block_pending)
  have "holds_block cfg a bs ?s'"
    using memcpy_at_keeps [OF inb clear'] length_memcpy_at [OF inb] len bs
    by (simp add: holds_block_def)
  with w show ?thesis by simp
qed

lemma besides_keep:
  assumes "list_all (beside cfg a) ds" and "4 dvd BLOCK_SIZE cfg"
    and "unat (flash_page_size cfg) \<le> MAX_FLASH_PAGE_SIZE cfg"
    and "holds_block cfg a bs s" and "page_pending s = 1"
  shows "\<exists>s'. run_session cfg (map RxBlock ds) s = Inr s' \<and> holds_block cfg a bs s'
     \<and> page_pending s' = 1 \<and> last_page_address s' = last_page_address s"
  using assms
proof (induction ds arbitrary: s)
  case Nil
  then show ?case by simp
next
  case (Cons d ds)
  from Cons.prems(1) have b: "beside cfg a d" and rest: "list_all (beside cfg a) ds"
    by simp_all
  from beside_keeps [OF b Cons.prems(2) Cons.prems(3) Cons.prems(4)]
  obtain s1 where w: "command_write_block cfg d s = Inr s1"
    and h1: "holds_block cfg a bs s1" and p1: "page_pending s1 = 1"
    and l1: "last_page_address s1 = last_page_address s"
    by blast
  from Cons.IH [OF rest Cons.prems(2) Cons.prems(3) h1 p1]
  obtain s' where "run_session cfg (map RxBlock ds) s1 = Inr s'"
    and "holds_block cfg a bs s'" and "page_pending s' = 1"
    and "last_page_address s' = last_page_address s1"
    by blast
  with w l1 show ?case by simp
qed

text \<open>
  The three ways in which a staged block reaches the flash, from any state whose page buffer
  has its declared size: the block completes its page; further blocks beside it are staged
  and a later block completes the same page; further blocks beside it are staged and
  end-of-file flushes the page, when \<open>last_page_address + page_size\<close> is the base of
  that page. In each case a read-block at the block's address then returns the staged bytes.
\<close>

lemma committed_block_reads_back:
  assumes acc: "write_block_accepts cfg d" and al: "4 dvd BLOCK_SIZE cfg"
    and p0: "flash_page_size cfg \<noteq> 0"
    and fit: "unat (page_pos cfg (hd d)) + BLOCK_SIZE cfg \<le> unat (flash_page_size cfg)"
    and cap: "unat (flash_page_size cfg) \<le> MAX_FLASH_PAGE_SIZE cfg"
    and len: "length (page_buffer s) = MAX_FLASH_PAGE_SIZE cfg"
  shows "(unat (page_pos cfg (hd d)) + BLOCK_SIZE cfg = unat (flash_page_size cfg) \<longrightarrow>
      (\<exists>s'. run_session cfg [RxBlock d, ReqBlock (hd d # rq)] s = Inr s'
         \<and> last (acks s') = Ack CMD_REQ_BLOCK [hd d] (block_bytes cfg d)))
   \<and> (unat (page_pos cfg (hd d)) + BLOCK_SIZE cfg < unat (flash_page_size cfg)
       \<and> list_all (beside cfg (hd d)) ds
       \<and> write_block_accepts cfg dl
       \<and> unat (page_pos cfg (hd dl)) + BLOCK_SIZE cfg = unat (flash_page_size cfg)
       \<and> unat (page_pos cfg (hd d)) + BLOCK_SIZE cfg \<le> unat (page_pos cfg (hd dl))
       \<and> hd dl - page_pos cfg (hd dl) = hd d - page_pos cfg (hd d) \<longrightarrow>
      (\<exists>s'. run_session cfg (RxBlock d # map RxBlock ds @ [RxBlock dl, ReqBlock (hd d # rq)]) s
               = Inr s'
         \<and> last (acks s') = Ack CMD_REQ_BLOCK [hd d] (block_bytes cfg d)))
   \<and> (unat (page_pos cfg (hd d)) + BLOCK_SIZE cfg < unat (flash_page_size cfg)
       \<and> list_all (beside cfg (hd d)) ds
       \<and> last_page_address s + flash_page_size cfg = hd d - page_pos cfg (hd d) \<longrightarrow>
      (\<exists>s'. run_session cfg (RxBlock d # map RxBlock ds @ [RxEof e, ReqBlock (hd d # rq)]) s
               = Inr s'
         \<and> last (acks s') = Ack CMD_REQ_BLOCK [hd d] (block_bytes cfg d)))"
proof (intro conjI impI)
  let ?base = "hd d - page_pos cfg (hd d)"
  assume full: "unat (page_pos cfg (hd d)) + BLOCK_SIZE cfg = unat (flash_page_size cfg)"
  let ?s1 = "command_respond_ack CMD_RX_BLOCK [hd d] []
      (write_page cfg ?base (stage_block cfg d s))"
  have w: "command_write_block cfg d s = Inr ?s1"
    using acc full p0 cap by (rule write_block_commits)
  have "flash_read_block cfg (hd d) ?s1
      = flash_read_block cfg (hd d) (write_page cfg ?base (stage_block cfg d s))"
    by (rule flash_read_block_cong) simp
  also have "\<dots> = block_bytes cfg d"
    using staged_holds_block [OF acc al fit cap len] fit cap by (rule holds_block_commit)
  finally have rb: "flash_read_block cfg (hd d) ?s1 = block_bytes cfg d" .
  show "\<exists>s'. run_session cfg [RxBlock d, ReqBlock (hd d # rq)] s = Inr s'
         \<and> last (acks s') = Ack CMD_REQ_BLOCK [hd d] (block_bytes cfg d)"
    by (simp add: w read_block_result rb)
next
  let ?base = "hd d - page_pos cfg (hd d)"
  assume h: "unat (page_pos cfg (hd d)) + BLOCK_SIZE cfg < unat (flash_page_size cfg)
       \<and> list_all (beside cfg (hd d)) ds
       \<and> write_block_accepts cfg dl
       \<and> unat (page_pos cfg (hd dl)) + BLOCK_SIZE cfg = unat (flash_page_size cfg)
       \<and> unat (page_pos cfg (hd d)) + BLOCK_SIZE cfg \<le> unat (page_pos cfg (hd dl))
       \<and> hd dl - page_pos cfg (hd dl) = hd d - page_pos cfg (hd d)"
  then have part: "unat (page_pos cfg (hd d)) + BLOCK_SIZE cfg < unat (flash_page_size cfg)"
    and ds: "list_all (beside cfg (hd d)) ds" and accl: "write_block_accepts cfg dl"
    and fulll: "unat (page_pos cfg (hd dl)) + BLOCK_SIZE cfg = unat (flash_page_size cfg)"
    and before: "unat (page_pos cfg (hd d)) + BLOCK_SIZE cfg \<le> unat (page_pos cfg (hd dl))"
    and same: "hd dl - page_pos cfg (hd dl) = ?base"
    by simp_all
  let ?s1 = "command_respond_ack CMD_RX_BLOCK [hd d] [] (stage_block cfg d s)"
  have w: "command_write_block cfg d s = Inr ?s1"
    using acc part cap by (rule write_block_pending)
  have h1: "holds_block cfg (hd d) (block_bytes cfg d) ?s1"
    using staged_holds_block [OF acc al fit cap len] by (simp add: holds_block_def)
  have p1: "page_pending ?s1 = 1" by simp
  from besides_keep [OF ds al cap h1 p1]
  obtain s2 where run: "run_session cfg (map RxBlock ds) ?s1 = Inr s2"
    and h2: "holds_block cfg (hd d) (block_bytes cfg d) s2"
    by blast
  from h2 have len2: "length (page_buffer s2) = MAX_FLASH_PAGE_SIZE cfg"
    by (simp add: holds_block_def)
  from accl al have bll: "length (block_bytes cfg dl) = BLOCK_SIZE cfg"
    by (simp add: write_block_accepts_def length_block_bytes)
  from fulll cap len2 bll
  have inb: "unat (page_pos cfg (hd dl)) + length (block_bytes cfg dl) \<le> length (page_buffer s2)"
    by simp
  from before
  have clear: "unat (page_pos cfg (hd dl)) + length (block_bytes cfg dl)
        \<le> unat (page_pos cfg (hd d))
      \<or> unat (page_pos cfg (hd d)) + BLOCK_SIZE cfg \<le> unat (page_pos cfg (hd dl))"
    by simp
  let ?t = "stage_block cfg dl s2"
  let ?s3 = "command_respond_ack CMD_RX_BLOCK [hd dl] [] (write_page cfg ?base ?t)"
  have wl: "command_write_block cfg dl s2 = Inr ?s3"
    using write_block_commits [OF accl fulll p0 cap, of s2] by (simp add: same)
  have ht: "holds_block cfg (hd d) (block_bytes cfg d) ?t"
    using memcpy_at_keeps [OF inb clear] length_memcpy_at [OF inb] h2
    by (simp add: holds_block_def)
  have "flash_read_block cfg (hd d) ?s3 = flash_read_block cfg (hd d) (write_page cfg ?base ?t)"
    by (rule flash_read_block_cong) simp
  also have "\<dots> = block_bytes cfg d"
    using ht fit cap by (rule holds_block_commit)
  finally have rb: "flash_read_block cfg (hd d) ?s3 = block_bytes cfg d" .
  show "\<exists>s'. run_session cfg (RxBlock d # map RxBlock ds @ [RxBlock dl, ReqBlock (hd d # rq)]) s
               = Inr s'
         \<and> last (acks s') = Ack CMD_REQ_BLOCK [hd d] (block_bytes cfg d)"
    by (simp add: w run run_session_append wl read_block_result rb)
next
  let ?base = "hd d - page_pos cfg (hd d)"
  assume h: "unat (page_pos cfg (hd d)) + BLOCK_SIZE cfg < unat (flash_page_size cfg)
       \<and> list_all (beside cfg (hd d)) ds
       \<and> last_page_address s + flash_page_size cfg = hd d - page_pos cfg (hd d)"
  then have part: "unat (page_pos cfg (hd d)) + BLOCK_SIZE cfg < unat (flash_page_size cfg)"
    and ds: "list_all (beside cfg (hd d)) ds"
    and track: "last_page_address s + flash_page_size cfg = ?base"
    by simp_all
  let ?s1 = "command_respond_ack CMD_RX_BLOCK [hd d] [] (stage_block cfg d s)"
  have w: "command_write_block cfg d s = Inr ?s1"
    using acc part cap by (rule write_block_pending)
  have h1: "holds_block cfg (hd d) (block_bytes cfg d) ?s1"
    using staged_holds_block [OF acc al fit cap len] by (simp add: holds_block_def)
  have p1: "page_pending ?s1 = 1" by simp
  from besides_keep [OF ds al cap h1 p1]
  obtain s2 where run: "run_session cfg (map RxBlock ds) ?s1 = Inr s2"
    and h2: "holds_block cfg (hd d) (block_bytes cfg d) s2"
    and p2: "page_pending s2 = 1" and l2: "last_page_address s2 = last_page_address s"
    by auto
  let ?t = "s2\<lparr> is_in_transfer := 0 \<rparr>"
  let ?s3 = "command_respond_ack CMD_RX_EOF
      [(?base - APPLICATION_START cfg) div flash_page_size cfg + 1] []
      (flash_complete (write_page cfg ?base ?t))"
  have e: "command_eof cfg e s2 = Inr ?s3"
    using p0 p2 l2 track by (simp add: eof_result)
  have ht: "holds_block cfg (hd d) (block_bytes cfg d) ?t"
    using h2 by (simp add: holds_block_def)
  have "flash_read_block cfg (hd d) ?s3 = flash_read_block cfg (hd d) (write_page cfg ?base ?t)"
    by (rule flash_read_block_cong) simp
  also have "\<dots> = block_bytes cfg d"
    using ht fit cap by (rule holds_block_commit)
  finally have rb: "flash_read_block cfg (hd d) ?s3 = block_bytes cfg d" .
  show "\<exists>s'. run_session cfg (RxBlock d # map RxBlock ds @ [RxEof e, ReqBlock (hd d # rq)]) s
               = Inr s'
         \<and> last (acks s') = Ack CMD_REQ_BLOCK [hd d] (block_bytes cfg d)"
    by (simp add: w run run_session_append e read_block_result rb)
qed

text \<open>
  The flush of a partial first page at end-of-file does not commit the page that contains
  the block (it goes to \<open>0x100\<close>, see C1): after write-block at \<open>0x8000\<close> and end-of-file
  from bootloader entry, read-block at \<open>0x8000\<close> still returns the erased flash.
\<close>

lemma partial_first_page_not_read_back:
  "\<exists>s'. run_session scenario_config
        [RxBlock (scenario_frame 0x8000 0x44332211), RxEof [], ReqBlock [0x8000, 0x0399C0DE]]
        requested_entry = Inr s'
     \<and> last (acks s') = Ack CMD_REQ_BLOCK [0x8000] (replicate 64 0xFF)"
proof -
  let ?d = "scenario_frame 0x8000 0x44332211"
  let ?s1 = "command_respond_ack CMD_RX_BLOCK [hd ?d] [] (stage_block scenario_config ?d requested_entry)"
  let ?t = "write_page scenario_config 0x100 (?s1\<lparr> is_in_transfer := 0 \<rparr>)"
  let ?s2 = "command_respond_ack CMD_RX_EOF [0xFFFF82] [] (flash_complete ?t)"
  have acc: "write_block_accepts scenario_config ?d"
    by (simp add: write_block_accepts_def scenario_config_def scenario_frame_def
          command_get_arg_count_def)
  have part: "unat (page_pos scenario_config (hd ?d)) + BLOCK_SIZE scenario_config
      < unat (flash_page_size scenario_config)"
    by (simp add: page_pos_def scenario_config_def scenario_frame_def)
  have cap: "unat (flash_page_size scenario_config) \<le> MAX_FLASH_PAGE_SIZE scenario_config"
    by (simp add: scenario_config_def)
  have p0: "flash_page_size scenario_config \<noteq> 0" by (simp add: scenario_config_def)
  have w: "command_write_block scenario_config ?d requested_entry = Inr ?s1"
    using acc part cap by (rule write_block_pending)
  have l0: "last_page_address requested_entry = 0"
    by (simp add: requested_entry_def set_bootup_code_def init_state_def)
  have e: "command_eof scenario_config [] ?s1 = Inr ?s2"
    using p0 l0 by (simp add: eof_result) (simp add: scenario_config_def)
  have m0: "flash_mem requested_entry = erased_flash"
    by (simp add: requested_entry_def set_bootup_code_def init_state_def)
  have rd: "flash_read_block scenario_config 0x8000 ?s2 = replicate 64 0xFF"
  proof (rule nth_equalityI)
    show "length (flash_read_block scenario_config 0x8000 ?s2) = length (replicate 64 (0xFF :: u8))"
      by (simp add: scenario_config_def)
  next
    fix i assume "i < length (flash_read_block scenario_config 0x8000 ?s2)"
    then have i: "i < 64" by (simp add: scenario_config_def)
    then have "unat ((0x7F00 :: u32) + of_nat i) = 0x7F00 + i"
      by (simp add: unat_word_ariths unat_of_nat)
    then have "\<not> unat ((0x7F00 :: u32) + of_nat i) < 256" by simp
    then have "flash_mem ?s2 (0x8000 + of_nat i) = 0xFF"
      using m0 by (simp add: flash_mem_write_page erased_flash_def scenario_config_def)
    with i show "flash_read_block scenario_config 0x8000 ?s2 ! i = replicate 64 0xFF ! i"
      by (simp add: flash_read_block_def scenario_config_def)
  qed
  show ?thesis
    by (simp add: w e read_block_result rd)
qed

subsection \<open>The page count of a contiguous image of at least one page (to C7)\<close>

lemma ceil_div:
  fixes n m :: nat
  assumes "0 < m"
  shows "(n + m - 1) div m = (if n mod m = 0 then n div m else Suc (n div m))"
proof -
  define q r where "q = n div m" and "r = n mod m"
  have n: "n = m * q + r" by (simp add: q_def r_def)
  have r: "r < m" using assms by (simp add: r_def)
  have "(m * q + r + m - 1) div m = (if r = 0 then q else Suc q)"
  proof (cases "r = 0")
    case True
    have "(m * q + r + m - 1) div m = q"
      using True assms by (intro div_nat_eqI) simp_all
    with True show ?thesis by simp
  next
    case False
    have "(m * q + r + m - 1) div m = Suc q"
      using False r by (intro div_nat_eqI) simp_all
    with False show ?thesis by simp
  qed
  then show ?thesis
    unfolding n [symmetric] by (simp add: q_def r_def)
qed

lemma page_geometry:
  assumes "geometry_ok cfg"
  shows "0 < blocks_per_page cfg"
    and "unat (flash_page_size cfg) = blocks_per_page cfg * BLOCK_SIZE cfg"
proof -
  from assms have b: "0 < BLOCK_SIZE cfg" and d: "BLOCK_SIZE cfg dvd unat (flash_page_size cfg)"
    and p: "flash_page_size cfg \<noteq> 0"
    by (simp_all add: geometry_ok_def)
  from d show eq: "unat (flash_page_size cfg) = blocks_per_page cfg * BLOCK_SIZE cfg"
    by (simp add: blocks_per_page_def)
  from p have "0 < unat (flash_page_size cfg)" by (simp add: unat_gt_0)
  with eq show "0 < blocks_per_page cfg" by (cases "blocks_per_page cfg") simp_all
qed

text \<open>Address and page offset of block number \<open>k\<close> of a contiguous image.\<close>

lemma unat_add_of_nat:
  fixes a :: u32
  assumes "unat a + x < 2 ^ 32"
  shows "unat (a + of_nat x) = unat a + x"
  using assms by (simp add: unat_word_ariths unat_of_nat)

lemma unat_block_address:
  assumes "unat (APPLICATION_START cfg) + k * BLOCK_SIZE cfg < 2 ^ 32"
  shows "unat (block_address cfg k) = unat (APPLICATION_START cfg) + k * BLOCK_SIZE cfg"
  unfolding block_address_def using assms by (rule unat_add_of_nat)

lemma block_page_pos:
  assumes g: "geometry_ok cfg"
    and r: "unat (APPLICATION_START cfg) + k * BLOCK_SIZE cfg < 2 ^ 32"
  shows "unat (page_pos cfg (block_address cfg k))
     = (k mod blocks_per_page cfg) * BLOCK_SIZE cfg"
proof -
  let ?P = "unat (flash_page_size cfg)"
  from g have al: "?P dvd unat (APPLICATION_START cfg)" by (simp add: geometry_ok_def)
  have "unat (page_pos cfg (block_address cfg k))
      = (unat (APPLICATION_START cfg) + k * BLOCK_SIZE cfg) mod ?P"
    by (simp add: page_pos_def unat_mod unat_block_address [OF r])
  also have "\<dots> = (k * BLOCK_SIZE cfg) mod ?P"
    using al by (simp add: mod_add_left_eq [symmetric] dvd_eq_mod_eq_0)
  also have "\<dots> = (k mod blocks_per_page cfg) * BLOCK_SIZE cfg"
    by (simp add: page_geometry(2) [OF g])
  finally show ?thesis .
qed


lemma page_address_base:
  assumes g: "geometry_ok cfg"
  shows "block_address cfg k - of_nat ((k mod blocks_per_page cfg) * BLOCK_SIZE cfg)
     = page_address cfg (k div blocks_per_page cfg)"
proof -
  let ?m = "blocks_per_page cfg"
  have "k * BLOCK_SIZE cfg = (k div ?m) * (?m * BLOCK_SIZE cfg) + (k mod ?m) * BLOCK_SIZE cfg"
    by (metis add_mult_distrib div_mult_mod_eq mult.assoc)
  then have "k * BLOCK_SIZE cfg
      = (k div ?m) * unat (flash_page_size cfg) + (k mod ?m) * BLOCK_SIZE cfg"
    by (simp only: page_geometry(2) [OF g])
  then have "(of_nat (k * BLOCK_SIZE cfg) :: u32)
      = of_nat ((k div ?m) * unat (flash_page_size cfg))
        + of_nat ((k mod ?m) * BLOCK_SIZE cfg)"
    by (simp only: of_nat_add)
  then show ?thesis
    by (simp only: block_address_def page_address_def) simp
qed

lemma page_address_Suc:
  "page_address cfg j + flash_page_size cfg = page_address cfg (Suc j)"
proof -
  have "(of_nat (Suc j * unat (flash_page_size cfg)) :: u32)
      = of_nat (j * unat (flash_page_size cfg)) + of_nat (unat (flash_page_size cfg))"
    by (simp only: of_nat_add [symmetric]) simp
  then show ?thesis
    by (simp only: page_address_def) simp
qed

lemma page_index:
  assumes "flash_page_size cfg \<noteq> 0" and "j * unat (flash_page_size cfg) < 2 ^ 32"
  shows "(page_address cfg j - APPLICATION_START cfg) div flash_page_size cfg = of_nat j"
proof -
  let ?P = "unat (flash_page_size cfg)"
  from assms(1) have p: "0 < ?P" by (simp add: unat_gt_0)
  then have "j * 1 \<le> j * ?P" by (intro mult_le_mono2) simp
  then have "j \<le> j * ?P" by (simp only: mult_1_right)
  from this assms(2) have j: "j < 2 ^ 32" by (rule le_less_trans)
  have d: "page_address cfg j - APPLICATION_START cfg = of_nat (j * ?P)"
    by (simp only: page_address_def) simp
  have "unat ((of_nat (j * ?P) :: u32) div flash_page_size cfg) = (j * ?P) div ?P"
    using assms(2) by (simp only: unat_div unat_of_nat) simp
  also have "\<dots> = j" using p by simp
  also have "\<dots> = unat (of_nat j :: u32)" using j by (simp add: unat_of_nat)
  finally show ?thesis
    unfolding d by (simp only: word_unat_eq_iff)
qed

text \<open>One more block of a contiguous image keeps the page tracking on track.\<close>

lemma contiguous_step:
  assumes g: "geometry_ok cfg" and t: "tracked cfg k s"
    and c: "command_get_arg_count d = BLOCK_SIZE cfg div 4 + 1"
    and a: "hd d = block_address cfg k"
    and r: "unat (APPLICATION_START cfg) + Suc k * BLOCK_SIZE cfg < 2 ^ 32"
  shows "\<exists>s'. command_write_block cfg d s = Inr s' \<and> tracked cfg (Suc k) s'"
proof -
  let ?m = "blocks_per_page cfg"
  let ?B = "BLOCK_SIZE cfg"
  let ?P = "unat (flash_page_size cfg)"
  note m0 = page_geometry(1) [OF g] and PB = page_geometry(2) [OF g]
  from g have b0: "0 < ?B" and al: "4 dvd ?B" and p0: "flash_page_size cfg \<noteq> 0"
    and cap: "?P \<le> MAX_FLASH_PAGE_SIZE cfg"
    by (simp_all add: geometry_ok_def)
  from r have rk: "unat (APPLICATION_START cfg) + k * ?B < 2 ^ 32" by simp
  have ua: "unat (hd d) = unat (APPLICATION_START cfg) + k * ?B"
    using a unat_block_address [OF rk] by simp
  have acc: "write_block_accepts cfg d"
    using c ua by (simp add: write_block_accepts_def word_less_nat_alt)
  have pos: "unat (page_pos cfg (hd d)) = (k mod ?m) * ?B"
    using block_page_pos [OF g rk] a by simp
  have "page_pos cfg (block_address cfg k)
      = of_nat (unat (page_pos cfg (block_address cfg k)))"
    by simp
  then have posw: "page_pos cfg (block_address cfg k) = of_nat ((k mod ?m) * ?B)"
    by (simp only: block_page_pos [OF g rk])
  have km: "k mod ?m < ?m" using m0 by simp
  have bl: "length (block_bytes cfg d) = ?B" using c al by (rule length_block_bytes)
  from t have len: "length (page_buffer s) = MAX_FLASH_PAGE_SIZE cfg"
    and fw: "length (flash_writes s) = k div ?m"
    and lastp: "?m \<le> k \<Longrightarrow> last_page_address s = page_address cfg (k div ?m - 1)"
    by (simp_all add: tracked_def split: if_splits)
  show ?thesis
  proof (cases "Suc (k mod ?m) = ?m")
    case True
    have "(k mod ?m) * ?B + ?B = Suc (k mod ?m) * ?B" by simp
    with True PB pos have full: "unat (page_pos cfg (hd d)) + ?B = ?P" by simp
    let ?s' = "command_respond_ack CMD_RX_BLOCK [hd d] []
        (write_page cfg (hd d - page_pos cfg (hd d)) (stage_block cfg d s))"
    have w: "command_write_block cfg d s = Inr ?s'"
      using acc full p0 cap by (rule write_block_commits)
    have sm: "Suc k mod ?m = 0" "Suc k div ?m = Suc (k div ?m)"
      using True by (simp_all add: mod_Suc div_Suc)
    have base: "hd d - page_pos cfg (hd d) = page_address cfg (k div ?m)"
      unfolding a posw by (rule page_address_base [OF g])
    have "tracked cfg (Suc k) ?s'"
      using sm fw base by (simp add: tracked_def)
    with w show ?thesis by blast
  next
    case False
    with km have lt: "Suc (k mod ?m) < ?m" by simp
    have "(k mod ?m) * ?B + ?B = Suc (k mod ?m) * ?B" by simp
    also have "\<dots> < ?m * ?B" using lt b0 by (simp only: mult_less_cancel2)
    finally have part: "unat (page_pos cfg (hd d)) + ?B < ?P" using pos PB by simp
    let ?s' = "command_respond_ack CMD_RX_BLOCK [hd d] [] (stage_block cfg d s)"
    have w: "command_write_block cfg d s = Inr ?s'"
      using acc part cap by (rule write_block_pending)
    have sm: "Suc k mod ?m = Suc (k mod ?m)" "Suc k div ?m = k div ?m"
      using False by (simp_all add: mod_Suc div_Suc)
    have mk: "?m \<le> Suc k \<Longrightarrow> ?m \<le> k"
    proof -
      assume "?m \<le> Suc k"
      moreover have "Suc k \<noteq> ?m" using sm(1) by auto
      ultimately show "?m \<le> k" by simp
    qed
    have l2: "length (page_buffer ?s') = MAX_FLASH_PAGE_SIZE cfg"
      using part cap len bl by (simp add: length_memcpy_at)
    have "tracked cfg (Suc k) ?s'"
      unfolding tracked_def using sm fw l2 lastp mk by simp
    with w show ?thesis by blast
  qed
qed

lemma contiguous_blocks:
  assumes "geometry_ok cfg" and "contiguous cfg k ds" and "tracked cfg k s"
    and "unat (APPLICATION_START cfg) + (k + length ds) * BLOCK_SIZE cfg < 2 ^ 32"
  shows "\<exists>s'. run_session cfg (map RxBlock ds) s = Inr s' \<and> tracked cfg (k + length ds) s'"
  using assms
proof (induction ds arbitrary: k s)
  case Nil
  then show ?case by simp
next
  case (Cons d ds)
  from Cons.prems(2) have c: "command_get_arg_count d = BLOCK_SIZE cfg div 4 + 1"
    and a: "hd d = block_address cfg k" and rest: "contiguous cfg (Suc k) ds"
    by simp_all
  have "Suc k * BLOCK_SIZE cfg \<le> (k + length (d # ds)) * BLOCK_SIZE cfg"
    by (intro mult_le_mono1) simp
  then have "unat (APPLICATION_START cfg) + Suc k * BLOCK_SIZE cfg
      \<le> unat (APPLICATION_START cfg) + (k + length (d # ds)) * BLOCK_SIZE cfg"
    by (rule add_left_mono)
  from this Cons.prems(4)
  have r: "unat (APPLICATION_START cfg) + Suc k * BLOCK_SIZE cfg < 2 ^ 32"
    by (rule le_less_trans)
  from contiguous_step [OF Cons.prems(1) Cons.prems(3) c a r]
  obtain s1 where w: "command_write_block cfg d s = Inr s1" and t1: "tracked cfg (Suc k) s1"
    by blast
  from Cons.prems(4)
  have r': "unat (APPLICATION_START cfg) + (Suc k + length ds) * BLOCK_SIZE cfg < 2 ^ 32"
    by simp
  from Cons.IH [OF Cons.prems(1) rest t1 r']
  obtain s' where "run_session cfg (map RxBlock ds) s1 = Inr s'"
    and "tracked cfg (Suc k + length ds) s'"
    by blast
  with w show ?case by simp
qed

lemma contiguous_eof:
  assumes g: "geometry_ok cfg" and t: "tracked cfg n s"
    and full: "blocks_per_page cfg \<le> n"
    and r: "unat (APPLICATION_START cfg) + n * BLOCK_SIZE cfg < 2 ^ 32"
  shows "\<exists>s'. command_eof cfg e s = Inr s'
     \<and> last (acks s') = Ack CMD_RX_EOF [of_nat (length (flash_writes s'))] []
     \<and> length (flash_writes s') = (n + blocks_per_page cfg - 1) div blocks_per_page cfg"
proof -
  let ?m = "blocks_per_page cfg"
  let ?P = "unat (flash_page_size cfg)"
  note m0 = page_geometry(1) [OF g] and PB = page_geometry(2) [OF g]
  from g have p0: "flash_page_size cfg \<noteq> 0" by (simp add: geometry_ok_def)
  from t full have fw: "length (flash_writes s) = n div ?m"
    and lastp: "last_page_address s = page_address cfg (n div ?m - 1)"
    and pend: "page_pending s = (if n mod ?m = 0 then 0 else 1)"
    by (simp_all add: tracked_def)
  from full m0 have q1: "1 \<le> n div ?m"
    by (simp add: div_greater_zero_iff Suc_le_eq)
  have "(n div ?m) * ?P = ((n div ?m) * ?m) * BLOCK_SIZE cfg" by (simp add: PB)
  also have "\<dots> \<le> n * BLOCK_SIZE cfg" by (intro mult_le_mono1) simp
  finally have "(n div ?m) * ?P \<le> n * BLOCK_SIZE cfg" .
  also have "\<dots> \<le> unat (APPLICATION_START cfg) + n * BLOCK_SIZE cfg" by simp
  finally have rp: "(n div ?m) * ?P < 2 ^ 32" using r by (rule le_less_trans)
  have "(n div ?m - 1) * ?P \<le> (n div ?m) * ?P" by (intro mult_le_mono1) simp
  from this rp have rp1: "(n div ?m - 1) * ?P < 2 ^ 32" by (rule le_less_trans)
  show ?thesis
  proof (cases "n mod ?m = 0")
    case True
    with pend have np: "page_pending s = 0" by simp
    have cnt: "(last_page_address s - APPLICATION_START cfg) div flash_page_size cfg + 1
        = of_nat (n div ?m)"
    proof -
      have "(last_page_address s - APPLICATION_START cfg) div flash_page_size cfg
          = of_nat (n div ?m - 1)"
        unfolding lastp using p0 rp1 by (rule page_index)
      moreover have "(of_nat (n div ?m - 1) :: u32) + 1 = of_nat (Suc (n div ?m - 1))"
        by simp
      ultimately show ?thesis using q1 by simp
    qed
    have "(n + ?m - 1) div ?m = n div ?m" using ceil_div [OF m0, of n] True by simp
    then show ?thesis
      using eof_idle [OF p0 np, of e] cnt fw by simp
  next
    case False
    with pend have pp: "page_pending s \<noteq> 0" by simp
    have nxt: "last_page_address s + flash_page_size cfg = page_address cfg (n div ?m)"
      unfolding lastp page_address_Suc using q1 by simp
    have cnt: "(page_address cfg (n div ?m) - APPLICATION_START cfg) div flash_page_size cfg + 1
        = of_nat (Suc (n div ?m))"
      using page_index [OF p0 rp] by simp
    have "(n + ?m - 1) div ?m = Suc (n div ?m)" using ceil_div [OF m0, of n] False by simp
    then show ?thesis
      using pp nxt cnt fw by (simp add: eof_result [OF p0])
  qed
qed

text \<open>
  For a contiguous image of at least one page, written from start-up, end-of-file
  acknowledges the number of pages written, which is the image size in pages rounded up.
  The initial value of \<open>last_page_address\<close> only shows when the image is shorter than a
  page.
\<close>

lemma contiguous_session_page_count:
  assumes g: "geometry_ok cfg" and c: "contiguous cfg 0 ds"
    and full: "blocks_per_page cfg \<le> length ds"
    and r: "unat (APPLICATION_START cfg) + length ds * BLOCK_SIZE cfg < 2 ^ 32"
    and s: "length (page_buffer s) = MAX_FLASH_PAGE_SIZE cfg" "page_pending s = 0"
      "flash_writes s = []"
  shows "\<exists>s'. run_session cfg (map RxBlock ds @ [RxEof e]) s = Inr s'
     \<and> last (acks s') = Ack CMD_RX_EOF [of_nat (length (flash_writes s'))] []
     \<and> length (flash_writes s')
         = (length ds + blocks_per_page cfg - 1) div blocks_per_page cfg"
proof -
  have t0: "tracked cfg 0 s"
    using s page_geometry(1) [OF g] by (simp add: tracked_def)
  from contiguous_blocks [OF g c t0] r
  obtain s1 where run: "run_session cfg (map RxBlock ds) s = Inr s1"
    and t1: "tracked cfg (length ds) s1"
    by auto
  from contiguous_eof [OF g t1 full r, of e]
  obtain s' where "command_eof cfg e s1 = Inr s'"
    and "last (acks s') = Ack CMD_RX_EOF [of_nat (length (flash_writes s'))] []"
    and "length (flash_writes s')
         = (length ds + blocks_per_page cfg - 1) div blocks_per_page cfg"
    by blast
  with run show ?thesis
    by (simp add: run_session_append)
qed


lemma scenario_geometry:
  "geometry_ok scenario_config \<and> blocks_per_page scenario_config = 4"
  by (simp add: geometry_ok_def blocks_per_page_def scenario_config_def)

subsection \<open>Write-block followed by read-block (C8)\<close>

text \<open>
  The payload of an accepted write-block frame is its words between the address and the
  word behind the arguments.
\<close>

lemma block_bytes_payload:
  assumes c: "command_get_arg_count d = BLOCK_SIZE cfg div 4 + 1" and al: "4 dvd BLOCK_SIZE cfg"
  shows "block_bytes cfg d = concat (map le_bytes (butlast (tl d)))"
proof -
  from c have l: "length d = BLOCK_SIZE cfg div 4 + 2"
    by (simp add: command_get_arg_count_def)
  then have d: "d = hd d # tl d" by (cases d) simp_all
  from l have lt: "length (tl d) = BLOCK_SIZE cfg div 4 + 1" by simp
  have "tl d \<noteq> []"
  proof
    assume e: "tl d = []"
    have "length (tl d) = 0" unfolding e by simp
    with lt show False by simp
  qed
  then have t: "tl d = butlast (tl d) @ [last (tl d)]" by simp
  from lt have lw: "length (butlast (tl d)) = BLOCK_SIZE cfg div 4" by simp
  have "block_bytes cfg (hd d # butlast (tl d) @ [last (tl d)])
      = concat (map le_bytes (butlast (tl d)))"
    using lw al by (rule block_bytes_words)
  with d t show ?thesis by simp
qed

lemma contiguous_append:
  "contiguous cfg k (xs @ ys) = (contiguous cfg k xs \<and> contiguous cfg (k + length xs) ys)"
  by (induction xs arbitrary: k) auto

text \<open>Block numbers inside the last, incomplete page of an image of \<open>N\<close> blocks.\<close>

lemma last_page_block:
  fixes N m i :: nat
  assumes "(N div m) * m \<le> i" and "i < N" and "0 < m"
  shows "i mod m = i - (N div m) * m"
proof -
  define r where "r = i - (N div m) * m"
  have i: "i = (N div m) * m + r" using assms(1) by (simp add: r_def)
  have "N = (N div m) * m + N mod m" by simp
  with assms(2) i have "r < N mod m" by linarith
  moreover have "N mod m < m" using assms(3) by simp
  ultimately have rm: "r < m" by simp
  have "i mod m = r" unfolding i using rm by simp
  then show ?thesis by (simp add: r_def)
qed

lemma last_page_block_less:
  fixes N m i :: nat
  assumes "(N div m) * m \<le> i" and "i < N" and "0 < m"
  shows "Suc (i mod m) < m"
proof -
  define r where "r = i - (N div m) * m"
  have i: "i = (N div m) * m + r" using assms(1) by (simp add: r_def)
  have "N = (N div m) * m + N mod m" by simp
  with assms(2) i have rn: "r < N mod m" by linarith
  moreover have "N mod m < m" using assms(3) by simp
  ultimately have rm: "r < m" by simp
  have "i mod m = r" unfolding i using rm by simp
  with rn \<open>N mod m < m\<close> show ?thesis by simp
qed

lemma contiguous_beside:
  assumes g: "geometry_ok cfg" and c: "contiguous cfg k ds"
    and r: "unat (APPLICATION_START cfg) + (k + length ds) * BLOCK_SIZE cfg < 2 ^ 32"
    and lo: "((k + length ds) div blocks_per_page cfg) * blocks_per_page cfg \<le> j"
    and jk: "j < k"
  shows "list_all (beside cfg (block_address cfg j)) ds"
  using c r lo jk
proof (induction ds arbitrary: k)
  case Nil
  then show ?case by simp
next
  case (Cons d ds)
  let ?m = "blocks_per_page cfg"
  let ?B = "BLOCK_SIZE cfg"
  let ?N = "k + length (d # ds)"
  note m0 = page_geometry(1) [OF g] and PB = page_geometry(2) [OF g]
  from g have b0: "0 < ?B" by (simp add: geometry_ok_def)
  from Cons.prems(1) have cnt: "command_get_arg_count d = ?B div 4 + 1"
    and a: "hd d = block_address cfg k" and rest: "contiguous cfg (Suc k) ds"
    by simp_all
  have "k * ?B \<le> ?N * ?B" by (intro mult_le_mono1) simp
  then have "unat (APPLICATION_START cfg) + k * ?B \<le> unat (APPLICATION_START cfg) + ?N * ?B"
    by (rule add_left_mono)
  from this Cons.prems(2) have rk: "unat (APPLICATION_START cfg) + k * ?B < 2 ^ 32"
    by (rule le_less_trans)
  have "j * ?B \<le> k * ?B" using Cons.prems(4) by (intro mult_le_mono1) simp
  then have "unat (APPLICATION_START cfg) + j * ?B \<le> unat (APPLICATION_START cfg) + k * ?B"
    by (rule add_left_mono)
  from this rk have rj: "unat (APPLICATION_START cfg) + j * ?B < 2 ^ 32"
    by (rule le_less_trans)
  have kN: "k < ?N" by simp
  from Cons.prems(3) Cons.prems(4) have lok: "(?N div ?m) * ?m \<le> k" by simp
  from Cons.prems(4) kN have jN: "j < ?N" by simp
  have km: "k mod ?m = k - (?N div ?m) * ?m" using lok kN m0 by (rule last_page_block)
  have jm: "j mod ?m = j - (?N div ?m) * ?m" using Cons.prems(3) jN m0 by (rule last_page_block)
  have klt: "Suc (k mod ?m) < ?m" using lok kN m0 by (rule last_page_block_less)
  from km jm Cons.prems(3) Cons.prems(4) have jk': "Suc (j mod ?m) \<le> k mod ?m" by simp
  have ua: "unat (hd d) = unat (APPLICATION_START cfg) + k * ?B"
    using a unat_block_address [OF rk] by simp
  have acc: "write_block_accepts cfg d"
    using cnt ua by (simp add: write_block_accepts_def word_less_nat_alt)
  have posk: "unat (page_pos cfg (hd d)) = (k mod ?m) * ?B"
    using block_page_pos [OF g rk] a by simp
  have posj: "unat (page_pos cfg (block_address cfg j)) = (j mod ?m) * ?B"
    by (rule block_page_pos [OF g rj])
  have "(k mod ?m) * ?B + ?B = Suc (k mod ?m) * ?B" by simp
  also have "\<dots> < ?m * ?B" using klt b0 by (simp only: mult_less_cancel2)
  finally have part: "unat (page_pos cfg (hd d)) + ?B < unat (flash_page_size cfg)"
    using posk PB by simp
  have "(j mod ?m) * ?B + ?B = Suc (j mod ?m) * ?B" by simp
  also have "\<dots> \<le> (k mod ?m) * ?B" using jk' by (intro mult_le_mono1)
  finally have clear: "unat (page_pos cfg (block_address cfg j)) + ?B
      \<le> unat (page_pos cfg (hd d))"
    using posj posk by simp
  have b: "beside cfg (block_address cfg j) d"
    using acc part clear by (simp add: beside_def)
  from Cons.prems(2)
  have r': "unat (APPLICATION_START cfg) + (Suc k + length ds) * ?B < 2 ^ 32" by simp
  from Cons.prems(3)
  have lo': "((Suc k + length ds) div ?m) * ?m \<le> j" by simp
  from Cons.prems(4) have jk2: "j < Suc k" by simp
  from Cons.IH [OF rest r' lo' jk2] b show ?case by simp
qed

text \<open>
  In a contiguous image of at least one page, written from a state with no pending page,
  end-of-file commits the last, incomplete page where its blocks belong.
\<close>

lemma contiguous_eof_reads_back:
  assumes g: "geometry_ok cfg" and c: "contiguous cfg 0 fs"
    and full: "blocks_per_page cfg \<le> length fs"
    and r: "unat (APPLICATION_START cfg) + length fs * BLOCK_SIZE cfg < 2 ^ 32"
    and s: "length (page_buffer s) = MAX_FLASH_PAGE_SIZE cfg" "page_pending s = 0"
      "flash_writes s = []"
    and j: "j < length fs"
    and lo: "(length fs div blocks_per_page cfg) * blocks_per_page cfg \<le> j"
  shows "\<exists>s'. run_session cfg
            (map RxBlock fs @ [RxEof e, ReqBlock (block_address cfg j # rq)]) s = Inr s'
     \<and> last (acks s') = Ack CMD_REQ_BLOCK [block_address cfg j] (block_bytes cfg (fs ! j))"
proof -
  let ?m = "blocks_per_page cfg"
  let ?B = "BLOCK_SIZE cfg"
  let ?P = "unat (flash_page_size cfg)"
  let ?pre = "take j fs"
  let ?d = "fs ! j"
  let ?post = "drop (Suc j) fs"
  note m0 = page_geometry(1) [OF g] and PB = page_geometry(2) [OF g]
  from g have b0: "0 < ?B" and al: "4 dvd ?B" and p0: "flash_page_size cfg \<noteq> 0"
    and cap: "?P \<le> MAX_FLASH_PAGE_SIZE cfg"
    by (simp_all add: geometry_ok_def)
  have split: "fs = ?pre @ ?d # ?post" using j by (rule id_take_nth_drop)
  have lpre: "length ?pre = j" using j by simp
  have lpost: "Suc j + length ?post = length fs" using j by simp
  from c have "contiguous cfg 0 (?pre @ ?d # ?post)" by (simp only: split [symmetric])
  then have cpre: "contiguous cfg 0 ?pre" and cd: "contiguous cfg j (?d # ?post)"
    by (simp_all only: contiguous_append lpre add_0)
  from cd have cnt: "command_get_arg_count ?d = ?B div 4 + 1"
    and a: "hd ?d = block_address cfg j" and cpost: "contiguous cfg (Suc j) ?post"
    by simp_all
  have "j * ?B \<le> length fs * ?B" using j by (intro mult_le_mono1) simp
  then have "unat (APPLICATION_START cfg) + j * ?B
      \<le> unat (APPLICATION_START cfg) + length fs * ?B"
    by (rule add_left_mono)
  from this r have rj: "unat (APPLICATION_START cfg) + j * ?B < 2 ^ 32" by (rule le_less_trans)
  have t0: "tracked cfg 0 s" using s m0 by (simp add: tracked_def)
  have rpre: "unat (APPLICATION_START cfg) + (0 + length ?pre) * ?B < 2 ^ 32"
    using rj lpre by simp
  from contiguous_blocks [OF g cpre t0 rpre] lpre
  obtain sj where run1: "run_session cfg (map RxBlock ?pre) s = Inr sj"
    and tj: "tracked cfg j sj"
    by auto
  from full m0 have q1: "1 \<le> length fs div ?m"
    by (simp add: div_greater_zero_iff Suc_le_eq)
  have "?m \<le> (length fs div ?m) * ?m" using q1 by (cases "length fs div ?m") simp_all
  from this lo have mj: "?m \<le> j" by (rule le_trans)
  have jm: "j mod ?m = j - (length fs div ?m) * ?m" using lo j m0 by (rule last_page_block)
  have jlt: "Suc (j mod ?m) < ?m" using lo j m0 by (rule last_page_block_less)
  have jdiv: "j div ?m = length fs div ?m"
  proof -
    have "j = (length fs div ?m) * ?m + j mod ?m" using jm lo by simp
    moreover have "j mod ?m < ?m" using m0 by simp
    ultimately show ?thesis
      by (metis div_mult_self3 div_less add.commute add_0 m0 less_not_refl)
  qed
  from tj mj have lenj: "length (page_buffer sj) = MAX_FLASH_PAGE_SIZE cfg"
    and lastj: "last_page_address sj = page_address cfg (j div ?m - 1)"
    by (simp_all add: tracked_def)
  have ua: "unat (hd ?d) = unat (APPLICATION_START cfg) + j * ?B"
    using a unat_block_address [OF rj] by simp
  have acc: "write_block_accepts cfg ?d"
    using cnt ua by (simp add: write_block_accepts_def word_less_nat_alt)
  have pos: "unat (page_pos cfg (hd ?d)) = (j mod ?m) * ?B"
    using block_page_pos [OF g rj] a by simp
  have "page_pos cfg (block_address cfg j) = of_nat (unat (page_pos cfg (block_address cfg j)))"
    by simp
  then have posw: "page_pos cfg (block_address cfg j) = of_nat ((j mod ?m) * ?B)"
    by (simp only: block_page_pos [OF g rj])
  have "(j mod ?m) * ?B + ?B = Suc (j mod ?m) * ?B" by simp
  also have "\<dots> < ?m * ?B" using jlt b0 by (simp only: mult_less_cancel2)
  finally have part: "unat (page_pos cfg (hd ?d)) + ?B < ?P" using pos PB by simp
  then have fit: "unat (page_pos cfg (hd ?d)) + ?B \<le> ?P" by simp
  have base: "hd ?d - page_pos cfg (hd ?d) = page_address cfg (j div ?m)"
    unfolding a posw by (rule page_address_base [OF g])
  from jdiv q1 have "Suc (j div ?m - 1) = j div ?m" by simp
  then have "page_address cfg (j div ?m - 1) + flash_page_size cfg = page_address cfg (j div ?m)"
    by (simp only: page_address_Suc)
  then have track: "last_page_address sj + flash_page_size cfg = hd ?d - page_pos cfg (hd ?d)"
    by (simp only: lastj base)
  have rpost: "unat (APPLICATION_START cfg) + (Suc j + length ?post) * ?B < 2 ^ 32"
    using r by (simp only: lpost)
  have lopost: "((Suc j + length ?post) div ?m) * ?m \<le> j"
    using lo by (simp only: lpost)
  have bes: "list_all (beside cfg (hd ?d)) ?post"
    unfolding a using g cpost rpost lopost by (rule contiguous_beside) simp
  from part bes track
  have h: "unat (page_pos cfg (hd ?d)) + ?B < ?P
       \<and> list_all (beside cfg (hd ?d)) ?post
       \<and> last_page_address sj + flash_page_size cfg = hd ?d - page_pos cfg (hd ?d)"
    by (intro conjI)
  from committed_block_reads_back [OF acc al p0 fit cap lenj, THEN conjunct2, THEN conjunct2] h
  have "\<exists>s'. run_session cfg (RxBlock ?d # map RxBlock ?post @ [RxEof e, ReqBlock (hd ?d # rq)]) sj
               = Inr s'
         \<and> last (acks s') = Ack CMD_REQ_BLOCK [hd ?d] (block_bytes cfg ?d)"
    by (rule mp)
  then obtain s' where
    run2: "run_session cfg (RxBlock ?d # map RxBlock ?post @ [RxEof e, ReqBlock (hd ?d # rq)]) sj
        = Inr s'"
    and ack: "last (acks s') = Ack CMD_REQ_BLOCK [hd ?d] (block_bytes cfg ?d)"
    by blast
  have "map RxBlock fs = map RxBlock ?pre @ RxBlock ?d # map RxBlock ?post"
    using arg_cong [OF split, of "map RxBlock"] by simp
  then have "run_session cfg (map RxBlock fs @ [RxEof e, ReqBlock (block_address cfg j # rq)]) s
      = run_session cfg (map RxBlock ?pre
          @ (RxBlock ?d # map RxBlock ?post @ [RxEof e, ReqBlock (hd ?d # rq)])) s"
    by (simp only: a append_assoc append_Cons)
  also have "\<dots> = Inr s'"
    by (simp only: run_session_append run1 run2 sum.case)
  finally have "run_session cfg (map RxBlock fs @ [RxEof e, ReqBlock (block_address cfg j # rq)]) s
      = Inr s'" .
  with ack a show ?thesis by simp
qed






end
